theory Spec2Isabelle
  imports Complex_Main
begin

section \<open>The paging engine of \<open>enyo.List\<close> (\<open>src/list/source/List.js\<close>)\<close>

text \<open>
  The list object of the source carries two disjoint groups of fields: the paging
  fields (page metrics, the two live page controls) and the swipe fields (gesture
  flags, the action panel, the completion timer). No method of one group reads or
  writes a field of the other, so each group is a record of its own here.

  Pixel quantities (heights, offsets, scroll positions, drag deltas) are \<open>int\<close>:
  they come from \<open>getBounds\<close>, \<open>offsetTop\<close>, \<open>parseInt\<close> and pointer
  coordinates. The three divisions of the paging code are written out exactly
  (\<open>Math.ceil\<close>, \<open>Math.floor\<close> over the rationals); where the JavaScript
  number would be \<open>Infinity\<close> or \<open>NaN\<close> (a division by zero) the embedding
  returns \<open>None\<close> instead of continuing with a number that is not one.
\<close>

subsection \<open>State\<close>

text \<open>
  A page control (\<open>$.page0\<close>, \<open>$.page1\<close>): the \<open>pageNo\<close> property and the
  offset style that \<open>positionPage\<close> writes, the row window whose markup
  \<open>setContent\<close> last received (\<open>None\<close> for the empty string of
  \<open>invalidatePages\<close>), and the number of \<open>generatePage\<close> calls that rendered
  into the control.
\<close>

record page_ctl =
  pageNo :: "int option"
  bound :: "int option"
  content :: "(int \<times> int) option"
  renders :: nat

datatype slot = Page0 | Page1

record pager =
  count :: int
  rowsPerPage :: int
  bottomUp :: bool
  fixedHeight :: bool
  rowHeight :: int
  defaultPageHeight :: int
  pageCount :: int
  portSize :: int
  scrollerHeight :: int
  pageHeights :: "int \<Rightarrow> int option"
  p0 :: "int option"
  p1 :: "int option"
  page :: int
  generatorRowOffset :: int
  generatorCount :: int
  page0 :: page_ctl
  page1 :: page_ctl
  portHeight :: int

text \<open>
  What the paging code reads from the rendering surface: the height of the list's own
  box (\<open>this.getBounds().height\<close>) and the height a page has once its markup is in
  a page control (\<open>inTarget.getBounds().height\<close>), given per page number.
\<close>

record dom =
  listHeight :: int
  renderedHeight :: "int \<Rightarrow> int"

record page_info =
  no :: int
  height :: int
  pos :: int

subsection \<open>Page metrics\<close>

text \<open>
  \<open>getPageHeight\<close>: \<open>this.pageHeights[inPageNo] || this.defaultPageHeight\<close>.
  A missing entry is \<open>undefined\<close> and a stored \<open>0\<close> is falsy: both give the default.
\<close>

definition getPageHeight :: "pager \<Rightarrow> int \<Rightarrow> int" where
  "getPageHeight s inPageNo =
     (case pageHeights s inPageNo of
        None \<Rightarrow> defaultPageHeight s
      | Some h \<Rightarrow> if h = 0 then defaultPageHeight s else h)"

text \<open>\<open>adjustPortSize\<close>: re-read the viewport height, size the port.\<close>

definition adjustPortSize :: "dom \<Rightarrow> pager \<Rightarrow> pager" where
  "adjustPortSize d s =
     (let s1 = s\<lparr>scrollerHeight := listHeight d\<rparr>
      in s1\<lparr>portHeight := max (scrollerHeight s1) (portSize s1)\<rparr>)"

text \<open>
  The \<open>for\<close> loop of \<open>updateMetrics\<close>:
  \<open>for (var i=0; i < this.pageCount; i++) this.portSize += this.getPageHeight(i)\<close>.
\<close>

function sumPageHeights :: "pager \<Rightarrow> int \<Rightarrow> int \<Rightarrow> int" where
  "sumPageHeights s i acc =
     (if i < pageCount s then sumPageHeights s (i + 1) (acc + getPageHeight s i) else acc)"
  by pat_completeness auto
termination
  by (relation "measure (\<lambda>(s, i, acc). nat (pageCount s - i))") auto

declare sumPageHeights.simps [simp del]

text \<open>
  \<open>updateMetrics\<close>. \<open>this.rowHeight || 100\<close> is \<open>100\<close> for a row height of
  \<open>0\<close>. \<open>Math.ceil(count / rowsPerPage)\<close> is \<open>- (floor (- count / rowsPerPage))\<close>;
  for \<open>rowsPerPage = 0\<close> the quotient is not a finite number.
\<close>

definition updateMetrics :: "dom \<Rightarrow> pager \<Rightarrow> pager option" where
  "updateMetrics d s =
     (if rowsPerPage s = 0 then None
      else
        let s1 = s\<lparr>defaultPageHeight :=
                     rowsPerPage s * (if rowHeight s \<noteq> 0 then rowHeight s else 100)\<rparr>;
            s2 = s1\<lparr>pageCount := - ((- count s1) div rowsPerPage s1)\<rparr>;
            s3 = s2\<lparr>portSize := sumPageHeights s2 0 0\<rparr>
        in Some (adjustPortSize d s3))"

subsection \<open>Positions and pages\<close>

text \<open>\<open>calcPos\<close>: the logical position of a scroll offset (mirrored when bottom-up).\<close>

definition calcPos :: "pager \<Rightarrow> int \<Rightarrow> int" where
  "calcPos s inPos = (if bottomUp s then portSize s - scrollerHeight s - inPos else inPos)"

text \<open>
  \<open>pageToPosition\<close>: \<open>while (p > 0) { p--; y += this.getPageHeight(p); }\<close>.
\<close>

function pageToPositionLoop :: "pager \<Rightarrow> int \<Rightarrow> int \<Rightarrow> int" where
  "pageToPositionLoop s p y =
     (if p > 0 then pageToPositionLoop s (p - 1) (y + getPageHeight s (p - 1)) else y)"
  by pat_completeness auto
termination
  by (relation "measure (\<lambda>(s, p, y). nat p)") auto

declare pageToPositionLoop.simps [simp del]

definition pageToPosition :: "pager \<Rightarrow> int \<Rightarrow> int" where
  "pageToPosition s inPage = pageToPositionLoop s inPage 0"

text \<open>
  \<open>positionToPageInfo\<close>: \<open>while (p >= 0) { page++; h = this.getPageHeight(page); p -= h; }\<close>
  The loop runs forever when the heights it subtracts are not positive, so it is a
  partial function: not returning is \<open>None\<close>.
\<close>

partial_function (option) pageInfoLoop :: "pager \<Rightarrow> int \<Rightarrow> int \<Rightarrow> int \<Rightarrow> page_info option" where
  "pageInfoLoop s pg h p =
     (if p \<ge> 0
      then pageInfoLoop s (pg + 1) (getPageHeight s (pg + 1)) (p - getPageHeight s (pg + 1))
      else Some \<lparr>no = pg, height = h, pos = p + h\<rparr>)"

declare pageInfoLoop.simps [code]

definition positionToPageInfo :: "pager \<Rightarrow> int \<Rightarrow> page_info option" where
  "positionToPageInfo s inY = pageInfoLoop s (- 1) (defaultPageHeight s) (calcPos s inY)"

text \<open>\<open>isPageInRange\<close>: \<open>inPage == Math.max(0, Math.min(this.pageCount-1, inPage))\<close>.\<close>

definition isPageInRange :: "pager \<Rightarrow> int \<Rightarrow> bool" where
  "isPageInRange s inPage = (inPage = max 0 (min (pageCount s - 1) inPage))"

subsection \<open>Generating and placing pages\<close>

definition getSlot :: "slot \<Rightarrow> pager \<Rightarrow> page_ctl" where
  "getSlot t s = (case t of Page0 \<Rightarrow> page0 s | Page1 \<Rightarrow> page1 s)"

definition setSlot :: "slot \<Rightarrow> page_ctl \<Rightarrow> pager \<Rightarrow> pager" where
  "setSlot t c s = (case t of Page0 \<Rightarrow> s\<lparr>page0 := c\<rparr> | Page1 \<Rightarrow> s\<lparr>page1 := c\<rparr>)"

text \<open>The other of the two live slots.\<close>

definition other :: "slot \<Rightarrow> slot" where
  "other t = (case t of Page0 \<Rightarrow> Page1 | Page1 \<Rightarrow> Page0)"

text \<open>
  The measurement block that closes \<open>generatePage\<close> (``update known page heights''):
  \<open>var h0 = this.getPageHeight(inPageNo);
    if (h0 != pageHeight && pageHeight > 0) {
      this.pageHeights[inPageNo] = pageHeight; this.portSize += pageHeight - h0; }\<close>
\<close>

definition recordPageHeight :: "int \<Rightarrow> int \<Rightarrow> pager \<Rightarrow> pager" where
  "recordPageHeight inPageNo pageHeight s =
     (let h0 = getPageHeight s inPageNo
      in if h0 \<noteq> pageHeight \<and> pageHeight > 0
         then s\<lparr>pageHeights := (pageHeights s)(inPageNo \<mapsto> pageHeight),
                portSize := portSize s + (pageHeight - h0)\<rparr>
         else s)"

text \<open>
  \<open>generatePage\<close>, in the three blocks of its body. First the row window of the
  page goes to the generator and its markup into the target control:
  \<open>this.page = inPageNo;
    var r = this.$.generator.rowOffset = this.rowsPerPage * this.page;
    var rpp = this.$.generator.count = Math.min(this.count - r, this.rowsPerPage);
    inTarget.setContent(this.$.generator.generateChildHtml());\<close>
\<close>

definition renderPage :: "int \<Rightarrow> slot \<Rightarrow> pager \<Rightarrow> pager" where
  "renderPage inPageNo inTarget s =
     (let s1 = s\<lparr>page := inPageNo\<rparr>;
          r = rowsPerPage s1 * page s1;
          rpp = min (count s1 - r) (rowsPerPage s1);
          s2 = s1\<lparr>generatorRowOffset := r, generatorCount := rpp\<rparr>;
          c = getSlot inTarget s2
      in setSlot inTarget (c\<lparr>content := Some (r, rpp), renders := Suc (renders c)\<rparr>) s2)"

text \<open>
  Then, with no row height yet and a positive measurement,
  \<open>this.rowHeight = Math.floor(pageHeight / rpp); this.updateMetrics();\<close>
  (\<open>rpp = 0\<close> makes the quotient infinite).
\<close>

definition inferRowHeight :: "dom \<Rightarrow> int \<Rightarrow> int \<Rightarrow> pager \<Rightarrow> pager option" where
  "inferRowHeight d pageHeight rpp s =
     (if rowHeight s = 0 \<and> pageHeight > 0
      then (if rpp = 0 then None else updateMetrics d (s\<lparr>rowHeight := pageHeight div rpp\<rparr>))
      else Some s)"

text \<open>
  Last, unless \<open>fixedHeight\<close>, the measurement is recorded. The measurement itself is
  \<open>inTarget.getBounds().height\<close>, read once the markup is in the control.
\<close>

definition generatePage :: "dom \<Rightarrow> int \<Rightarrow> slot \<Rightarrow> pager \<Rightarrow> pager option" where
  "generatePage d inPageNo inTarget s =
     (let s3 = renderPage inPageNo inTarget s;
          rpp = generatorCount s3;
          pageHeight = renderedHeight d inPageNo
      in case inferRowHeight d pageHeight rpp s3 of
           None \<Rightarrow> None
         | Some s4 \<Rightarrow>
             Some (if \<not> fixedHeight s4 then recordPageHeight inPageNo pageHeight s4 else s4))"

text \<open>
  \<open>positionPage\<close>. \<open>adjustBottomPage\<close> passes the \<open>pageNo\<close> of a control, which is
  \<open>undefined\<close> for a control never positioned: \<open>pageToPosition(undefined)\<close> skips
  its loop (\<open>undefined > 0\<close> is false) and returns \<open>0\<close>.
\<close>

definition positionPage :: "int option \<Rightarrow> slot \<Rightarrow> pager \<Rightarrow> pager" where
  "positionPage inPage inTarget s =
     (let y = (case inPage of None \<Rightarrow> 0 | Some p \<Rightarrow> pageToPosition s p)
      in setSlot inTarget ((getSlot inTarget s)\<lparr>pageNo := inPage, bound := Some y\<rparr>) s)"

text \<open>
  \<open>adjustBottomPage\<close>: \<open>this.p0 >= this.p1 ? this.$.page0 : this.$.page1\<close>; in the
  comparison \<open>null\<close> counts as \<open>0\<close>.
\<close>

definition adjustBottomPage :: "pager \<Rightarrow> pager" where
  "adjustBottomPage s =
     (let bp = (if (case p0 s of None \<Rightarrow> 0 | Some a \<Rightarrow> a) \<ge> (case p1 s of None \<Rightarrow> 0 | Some b \<Rightarrow> b)
                then Page0 else Page1)
      in positionPage (pageNo (getSlot bp s)) bp s)"

subsection \<open>The leap-frog update\<close>

text \<open>
  JavaScript's \<open>%\<close> takes the sign of the dividend (\<open>-3 % 2\<close> is \<open>-1\<close>).
\<close>

definition js_rem :: "int \<Rightarrow> int \<Rightarrow> int" where
  "js_rem a b = sgn a * (\<bar>a\<bar> mod \<bar>b\<bar>)"

text \<open>
  The leap-frog index of \<open>update\<close>:
  \<open>pos = pi.pos + this.scrollerHeight/2;
    k = Math.floor(pos/Math.max(pi.height, this.scrollerHeight) + 1/2) + pi.no\<close>,
  computed over the rationals; a zero divisor gives no finite number.
\<close>

definition leapFrogIndex :: "pager \<Rightarrow> page_info \<Rightarrow> int option" where
  "leapFrogIndex s info =
     (let zone = (of_int (pos info) + of_int (scrollerHeight s) / 2 :: rat);
          m = max (height info) (scrollerHeight s)
      in if m = 0 then None
         else Some (\<lfloor>zone / of_int m + 1 / 2\<rfloor> + no info))"

text \<open>The two targets: \<open>(k % 2 === 0) ? k : k-1\<close> and \<open>(k % 2 === 0) ? Math.max(1, k-1) : k\<close>.\<close>

definition page0Target :: "int \<Rightarrow> int" where
  "page0Target k = (if js_rem k 2 = 0 then k else k - 1)"

definition page1Target :: "int \<Rightarrow> int" where
  "page1Target k = (if js_rem k 2 = 0 then max 1 (k - 1) else k)"

text \<open>
  One slot of \<open>update\<close>:
  \<open>if (this.p0 != p && this.isPageInRange(p)) {
      this.generatePage(p, this.$.page0); this.positionPage(p, this.$.page0);
      this.p0 = p; updated = true; }\<close>
  and the same for \<open>p1\<close>. The result carries the \<open>updated\<close> flag.
\<close>

definition getP :: "slot \<Rightarrow> pager \<Rightarrow> int option" where
  "getP t s = (case t of Page0 \<Rightarrow> p0 s | Page1 \<Rightarrow> p1 s)"

definition setP :: "slot \<Rightarrow> int \<Rightarrow> pager \<Rightarrow> pager" where
  "setP t p s = (case t of Page0 \<Rightarrow> s\<lparr>p0 := Some p\<rparr> | Page1 \<Rightarrow> s\<lparr>p1 := Some p\<rparr>)"

definition updateSlot :: "dom \<Rightarrow> slot \<Rightarrow> int \<Rightarrow> pager \<times> bool \<Rightarrow> (pager \<times> bool) option" where
  "updateSlot d t p su =
     (let s = fst su
      in if getP t s \<noteq> Some p \<and> isPageInRange s p
         then (case generatePage d p t s of
                 None \<Rightarrow> None
               | Some s1 \<Rightarrow> Some (setP t p (positionPage (Some p) t s1), True))
         else Some su)"

definition update :: "dom \<Rightarrow> int \<Rightarrow> pager \<Rightarrow> pager option" where
  "update d inScrollTop s =
     (case positionToPageInfo s inScrollTop of
        None \<Rightarrow> None
      | Some info \<Rightarrow>
          (case leapFrogIndex s info of
             None \<Rightarrow> None
           | Some k \<Rightarrow>
               (case updateSlot d Page0 (page0Target k) (s, False) of
                  None \<Rightarrow> None
                | Some su0 \<Rightarrow>
                    (case updateSlot d Page1 (page1Target k) su0 of
                       None \<Rightarrow> None
                     | Some (s2, updated) \<Rightarrow>
                         Some (if updated \<and> \<not> fixedHeight s2
                               then adjustPortSize d (adjustBottomPage s2)
                               else s2)))))"

text \<open>\<open>invalidatePages\<close> and \<open>invalidateMetrics\<close>.\<close>

definition invalidatePages :: "pager \<Rightarrow> pager" where
  "invalidatePages s =
     s\<lparr>p0 := None, p1 := None,
       page0 := (page0 s)\<lparr>content := None\<rparr>,
       page1 := (page1 s)\<lparr>content := None\<rparr>\<rparr>"

definition invalidateMetrics :: "dom \<Rightarrow> pager \<Rightarrow> pager option" where
  "invalidateMetrics d s = updateMetrics d (s\<lparr>pageHeights := Map.empty, rowHeight := 0\<rparr>)"

text \<open>
  A list as \<open>create\<close> leaves it (published defaults, \<open>pageHeights = []\<close>), with the
  given configuration. The metric fields are not yet numbers at that point; every
  state used below goes through \<open>invalidateMetrics\<close> first, as \<open>rendered\<close> does
  through \<open>reset\<close>, which sets them.
\<close>

definition emptyCtl :: page_ctl where
  "emptyCtl = \<lparr>pageNo = None, bound = None, content = None, renders = 0\<rparr>"

definition created :: "int \<Rightarrow> int \<Rightarrow> bool \<Rightarrow> bool \<Rightarrow> pager" where
  "created cnt rpp bu fh =
     \<lparr>count = cnt, rowsPerPage = rpp, bottomUp = bu, fixedHeight = fh, rowHeight = 0,
      defaultPageHeight = 0, pageCount = 0, portSize = 0, scrollerHeight = 0,
      pageHeights = Map.empty, p0 = None, p1 = None, page = 0,
      generatorRowOffset = 0, generatorCount = 0,
      page0 = emptyCtl, page1 = emptyCtl, portHeight = 0\<rparr>"

text \<open>\<open>reset\<close>, up to the scroll call: metrics and pages invalidated.\<close>

definition resetPages :: "dom \<Rightarrow> pager \<Rightarrow> pager option" where
  "resetPages d s = map_option invalidatePages (invalidateMetrics d s)"

section \<open>The swipe gestures of \<open>enyo.List\<close>\<close>

subsection \<open>State\<close>

text \<open>The two values of \<open>persistentItemOrigin\<close>: \<open>"left"\<close> and \<open>"right"\<close>.\<close>

datatype side = Left | Right

text \<open>
  The duration in the panel's \<open>-webkit-transition\<close> style: never written, written
  from a number of seconds, or written from \<open>undefined\<close> (the text
  \<open>"-webkit-transform undefineds linear 0s"\<close>).
\<close>

datatype duration = NoTransition | Seconds rat | UndefinedSeconds

text \<open>
  A gesture or transition event as the handlers read it. \<open>index\<close> is
  \<open>None\<close> when the event has none (\<open>undefined\<close>); \<open>xDirection\<close> is
  \<open>1\<close> or \<open>-1\<close> on a gesture, and \<open>None\<close> once \<open>completeSwipe\<close> has
  overwritten it with a \<open>null\<close> swipe direction; \<open>originator\<close> is
  \<open>inEvent.originator.name\<close>.
\<close>

record gesture =
  index :: "int option"
  xDirection :: "int option"
  dx :: int
  ddx :: int
  xVelocity :: rat
  yVelocity :: rat
  vertical :: bool
  originator :: string

text \<open>
  The events the kind declares in its \<open>events\<close> block, with the payload the
  handlers read: \<open>index\<close> and \<open>xDirection\<close>.
\<close>

datatype list_event =
    OnSetupItem int
  | OnSetupSwipeItem "int option" "int option"
  | OnSwipeDrag
  | OnSwipe
  | OnSwipeComplete "int option" "int option"

text \<open>
  The swipe fields of the list, the action panel \<open>$.swipeableComponents\<close>
  (\<open>showing\<close>, the styles the code writes and reads back: \<open>top\<close>, the x of
  \<open>translate3d\<close>, the width and height, the seconds of \<open>-webkit-transition\<close>), the
  events bubbled so far, and the browser's table of pending timeouts, each with the
  event its callback closes over.
\<close>

record swiper =
  enableSwipe :: bool
  persistSwipeableItem :: bool
  swipeableControls :: nat
  swipeIndex :: "int option"
  swipeDirection :: "int option"
  persistentItemVisisble :: bool
  persistentItemOrigin :: "side option"
  swipeComplete :: bool
  completeSwipeTimeout :: "nat option"
  flicked :: bool
  showing :: bool
  panelTop :: int
  translateX :: int
  panelWidth :: int
  panelHeight :: int
  transition :: duration
  emitted :: "list_event list"
  timers :: "(nat \<times> gesture) list"
  nextTimer :: nat

text \<open>
  What the gesture code reads from the rendering surface: the row node of an index
  (\<open>$.generator.fetchRowNode\<close>), as its offset from the list's top, its width and
  its height, or nothing.
\<close>

record row_node =
  nodeTop :: int
  nodeWidth :: int
  nodeHeight :: int

type_synonym rows = "int option \<Rightarrow> row_node option"

text \<open>The instance constants of the kind.\<close>

definition completeSwipeDelayMS :: nat where
  "completeSwipeDelayMS = 150"

definition normalSwipeSpeed :: rat where
  "normalSwipeSpeed = 2 / 10"

definition fastSwipeSpeed :: rat where
  "fastSwipeSpeed = 1 / 10"

definition percentageDraggedThreshold :: rat where
  "percentageDraggedThreshold = 2 / 10"

text \<open>
  \<open>this.normalSwipeSpeedSecs\<close>, which \<open>bounceItem\<close> and \<open>slideAwayItem\<close> read:
  the kind has no property of that name, so the value is \<open>undefined\<close>.
\<close>

definition normalSwipeSpeedSecs :: duration where
  "normalSwipeSpeedSecs = UndefinedSeconds"

subsection \<open>Numbers that may not be finite\<close>

text \<open>
  \<open>calcPercentageDragged\<close> divides by the panel's width and its result is only
  compared: a number, \<open>Infinity\<close> (nonzero over zero) or \<open>NaN\<close> (zero over zero).
\<close>

datatype jsnum = Num rat | Infinity | NaN

definition js_gt :: "jsnum \<Rightarrow> rat \<Rightarrow> bool" where
  "js_gt a b = (case a of Num r \<Rightarrow> r > b | Infinity \<Rightarrow> True | NaN \<Rightarrow> False)"

text \<open>\<open>Math.abs(dx / parseInt(getComputedStyle(...).width))\<close>.\<close>

definition calcPercentageDragged :: "swiper \<Rightarrow> int \<Rightarrow> jsnum" where
  "calcPercentageDragged s x =
     (if panelWidth s = 0 then (if x = 0 then NaN else Infinity)
      else Num \<bar>of_int x / of_int (panelWidth s)\<bar>)"

subsection \<open>Helpers\<close>

definition hasSwipeableComponents :: "swiper \<Rightarrow> bool" where
  "hasSwipeableComponents s = (swipeableControls s \<noteq> 0)"

definition setSwipeDirection :: "int option \<Rightarrow> swiper \<Rightarrow> swiper" where
  "setSwipeDirection d s = s\<lparr>swipeDirection := d\<rparr>"

definition setFlicked :: "bool \<Rightarrow> swiper \<Rightarrow> swiper" where
  "setFlicked f s = s\<lparr>flicked := f\<rparr>"

definition wasFlicked :: "swiper \<Rightarrow> bool" where
  "wasFlicked s = flicked s"

definition setSwipeComplete :: "bool \<Rightarrow> swiper \<Rightarrow> swiper" where
  "setSwipeComplete c s = s\<lparr>swipeComplete := c\<rparr>"

text \<open>
  \<open>(this.swipeIndex === null) ? true : (index === undefined) ? false : (index !== this.swipeIndex)\<close>
\<close>

definition swipeIndexChanged :: "int option \<Rightarrow> swiper \<Rightarrow> bool" where
  "swipeIndexChanged i s =
     (case swipeIndex s of
        None \<Rightarrow> True
      | Some cur \<Rightarrow> (case i of None \<Rightarrow> False | Some j \<Rightarrow> j \<noteq> cur))"

definition setSwipeIndex :: "int option \<Rightarrow> swiper \<Rightarrow> swiper" where
  "setSwipeIndex i s = (case i of None \<Rightarrow> s | Some j \<Rightarrow> s\<lparr>swipeIndex := Some j\<rparr>)"

definition setPersistentItemOrigin :: "int option \<Rightarrow> swiper \<Rightarrow> swiper" where
  "setPersistentItemOrigin xd s =
     s\<lparr>persistentItemOrigin := Some (if xd = Some 1 then Left else Right)\<rparr>"

text \<open>
  \<open>positionSwipeableContainer\<close>: without a row node nothing is written; with one,
  the panel gets the row's top, width and height and starts one width off-screen,
  on the left for \<open>xDirection == 1\<close>.
\<close>

definition positionSwipeableContainer :: "rows \<Rightarrow> int option \<Rightarrow> int option \<Rightarrow> swiper \<Rightarrow> swiper" where
  "positionSwipeableContainer rs i xd s =
     (case rs i of
        None \<Rightarrow> s
      | Some node \<Rightarrow>
          s\<lparr>panelTop := nodeTop node,
            translateX := (if xd = Some 1 then - 1 * nodeWidth node else nodeWidth node),
            panelHeight := nodeHeight node,
            panelWidth := nodeWidth node\<rparr>)"

text \<open>
  \<open>calcNewDragPosition\<close>: the current x plus the delta, stopped at one width on
  the side the drag direction gives.
\<close>

definition calcNewDragPosition :: "swiper \<Rightarrow> int \<Rightarrow> int" where
  "calcNewDragPosition s x =
     (let xPos = translateX s;
          xlimit = (if swipeDirection s = Some 1 then - 1 * panelWidth s else panelWidth s)
      in if swipeDirection s = Some 1
         then (if xPos + x < xlimit then xlimit else xPos + x)
         else (if xPos + x > xlimit then xlimit else xPos + x))"

definition dragSwipeableComponents :: "int \<Rightarrow> swiper \<Rightarrow> swiper" where
  "dragSwipeableComponents x s = s\<lparr>translateX := x\<rparr>"

definition startSwipe :: "rows \<Rightarrow> gesture \<Rightarrow> swiper \<Rightarrow> swiper" where
  "startSwipe rs e s =
     (let s1 = positionSwipeableContainer rs (swipeIndex s) (xDirection e) s;
          s2 = s1\<lparr>showing := True\<rparr>;
          s3 = setPersistentItemOrigin (xDirection e) s2
      in s3\<lparr>emitted := emitted s3 @ [OnSetupSwipeItem (index e) (xDirection e)]\<rparr>)"

definition dragPersistentItem :: "gesture \<Rightarrow> swiper \<Rightarrow> swiper" where
  "dragPersistentItem e s =
     (let xPos = 0;
          x = (if persistentItemOrigin s = Some Right
               then max xPos (xPos + dx e) else min xPos (xPos + dx e))
      in s\<lparr>translateX := x\<rparr>)"

text \<open>\<open>swipeItem\<close>: write the transition, then the transform.\<close>

definition swipeItem :: "int \<Rightarrow> duration \<Rightarrow> swiper \<Rightarrow> swiper" where
  "swipeItem x secs s = s\<lparr>transition := secs, translateX := x\<rparr>"

definition swipe :: "rat \<Rightarrow> swiper \<Rightarrow> swiper" where
  "swipe speed s = swipeItem 0 (Seconds speed) (setSwipeComplete True s)"

definition backOutSwipe :: "swiper \<Rightarrow> swiper" where
  "backOutSwipe s =
     (let x = (if swipeDirection s = Some 1 then - 1 * panelWidth s else panelWidth s)
      in swipeItem x (Seconds (1 / 10)) s)"

definition bounceItem :: "swiper \<Rightarrow> swiper" where
  "bounceItem s = (if translateX s \<noteq> 0 then swipeItem 0 normalSwipeSpeedSecs s else s)"

definition setPersistSwipeableItem :: "bool \<Rightarrow> swiper \<Rightarrow> swiper" where
  "setPersistSwipeableItem b s = s\<lparr>persistSwipeableItem := b\<rparr>"

definition slideAwayItem :: "swiper \<Rightarrow> swiper" where
  "slideAwayItem s =
     (let xPos = (if persistentItemOrigin s = Some Right then panelWidth s else - 1 * panelWidth s);
          s1 = s\<lparr>transition := normalSwipeSpeedSecs\<rparr>;
          s2 = s1\<lparr>translateX := xPos\<rparr>;
          s3 = s2\<lparr>persistentItemVisisble := False\<rparr>
      in setPersistSwipeableItem False s3)"

definition resetSwipeableTransitionTime :: "swiper \<Rightarrow> swiper" where
  "resetSwipeableTransitionTime s = s\<lparr>transition := Seconds 0\<rparr>"

definition clearSwipeables :: "swiper \<Rightarrow> swiper" where
  "clearSwipeables s =
     setPersistSwipeableItem False (s\<lparr>showing := False, persistentItemVisisble := False\<rparr>)"

text \<open>
  \<open>dragFinishPersistentItem\<close>. The direction of the net delta is \<open>"right"\<close>,
  \<open>"left"\<close> or \<open>null\<close>, and is compared with the origin (itself \<open>null\<close> before
  the first swipe).
\<close>

definition dragFinishPersistentItem :: "gesture \<Rightarrow> swiper \<Rightarrow> swiper" where
  "dragFinishPersistentItem e s =
     (let completeSwipe = js_gt (calcPercentageDragged s (dx e)) (2 / 10);
          dir = (if dx e > 0 then Some Right else if dx e < 0 then Some Left else None)
      in if persistentItemOrigin s = dir
         then (if completeSwipe then slideAwayItem s else bounceItem s)
         else bounceItem s)"

definition flickPersistentItem :: "gesture \<Rightarrow> swiper \<Rightarrow> swiper" where
  "flickPersistentItem e s =
     (if xVelocity e > 0
      then (if persistentItemOrigin s = Some Left then bounceItem s else slideAwayItem s)
      else if xVelocity e < 0
      then (if persistentItemOrigin s = Some Right then bounceItem s else slideAwayItem s)
      else s)"

subsection \<open>The completion timer\<close>

text \<open>
  \<open>setTimeout\<close> hands out a fresh positive id and the timeout stays pending until
  it fires or \<open>clearTimeout\<close> removes it. \<open>if (this.completeSwipeTimeout)\<close> is
  true for a stored nonzero id.
\<close>

definition setTimeout :: "gesture \<Rightarrow> swiper \<Rightarrow> nat \<times> swiper" where
  "setTimeout e s =
     (nextTimer s, s\<lparr>timers := timers s @ [(nextTimer s, e)], nextTimer := Suc (nextTimer s)\<rparr>)"

definition clearTimeout :: "nat \<Rightarrow> swiper \<Rightarrow> swiper" where
  "clearTimeout n s = s\<lparr>timers := filter (\<lambda>t. fst t \<noteq> n) (timers s)\<rparr>"

definition timeoutSet :: "swiper \<Rightarrow> bool" where
  "timeoutSet s = (case completeSwipeTimeout s of None \<Rightarrow> False | Some n \<Rightarrow> n \<noteq> 0)"

definition transitionComplete :: "gesture \<Rightarrow> swiper \<Rightarrow> swiper" where
  "transitionComplete e s =
     (if originator e \<noteq> ''swipeableComponents'' then s
      else let (n, s1) = setTimeout e s in s1\<lparr>completeSwipeTimeout := Some n\<rparr>)"

text \<open>
  \<open>completeSwipe\<close> also writes \<open>xDirection\<close> and, when it is missing, \<open>index\<close>
  into the event it was given; \<open>dragstart\<close> goes on reading that event, so the
  event is returned with the state.
\<close>

definition completeSwipe :: "gesture \<Rightarrow> swiper \<Rightarrow> gesture \<times> swiper" where
  "completeSwipe e s =
     (let s1 = (case completeSwipeTimeout s of
                  None \<Rightarrow> s
                | Some n \<Rightarrow> if n \<noteq> 0 then (clearTimeout n s)\<lparr>completeSwipeTimeout := None\<rparr> else s);
          e1 = e\<lparr>xDirection := swipeDirection s1\<rparr>;
          e2 = (case index e1 of None \<Rightarrow> e1\<lparr>index := swipeIndex s1\<rparr> | Some j \<Rightarrow> e1);
          s2 = setSwipeDirection None s1;
          s3 = resetSwipeableTransitionTime s2
      in if \<not> persistSwipeableItem s3
         then (let s4 = s3\<lparr>showing := False\<rparr>
               in if swipeComplete s4
                  then (e2, s4\<lparr>emitted := emitted s4 @ [OnSwipeComplete (index e2) (xDirection e2)]\<rparr>)
                  else (e2, s4))
         else (e2, s3\<lparr>persistentItemVisisble := True\<rparr>))"

text \<open>
  A pending timeout fires: it leaves the browser's table and its callback runs
  \<open>completeSwipe\<close> on the transition event it closed over. An id that is not pending
  (fired or cleared before) does nothing.
\<close>

definition timerFires :: "nat \<Rightarrow> swiper \<Rightarrow> swiper" where
  "timerFires n s =
     (case map_of (timers s) n of
        None \<Rightarrow> s
      | Some e \<Rightarrow> snd (completeSwipe e (s\<lparr>timers := filter (\<lambda>t. fst t \<noteq> n) (timers s)\<rparr>)))"

subsection \<open>The handlers\<close>

definition dragstart :: "rows \<Rightarrow> gesture \<Rightarrow> swiper \<Rightarrow> swiper" where
  "dragstart rs inEvent s =
     (if \<not> hasSwipeableComponents s \<or> vertical inEvent then s
      else
        let s1 = setSwipeDirection (xDirection inEvent) s;
            (e, s2) = (if timeoutSet s1 then completeSwipe inEvent s1 else (inEvent, s1));
            s3 = setFlicked False s2;
            s4 = setSwipeComplete False s3;
            s5 = (if swipeIndexChanged (index e) s4
                  then setSwipeIndex (index e) (clearSwipeables s4) else s4)
        in if \<not> persistentItemVisisble s5 then startSwipe rs e s5 else s5)"

definition drag :: "gesture \<Rightarrow> swiper \<Rightarrow> swiper" where
  "drag inEvent s =
     (if \<not> enableSwipe s then s
      else if persistentItemVisisble s then dragPersistentItem inEvent s
      else dragSwipeableComponents (calcNewDragPosition s (ddx inEvent)) s)"

definition flick :: "gesture \<Rightarrow> swiper \<Rightarrow> swiper" where
  "flick inEvent s =
     (if \<not> enableSwipe s then s
      else if \<bar>xVelocity inEvent\<bar> < \<bar>yVelocity inEvent\<bar> then s
      else
        let s1 = setFlicked True s
        in if persistentItemVisisble s1 then flickPersistentItem inEvent s1
           else swipe normalSwipeSpeed s1)"

definition dragfinish :: "gesture \<Rightarrow> swiper \<Rightarrow> swiper" where
  "dragfinish inEvent s =
     (if \<not> enableSwipe s then s
      else if wasFlicked s then s
      else if persistentItemVisisble s then dragFinishPersistentItem inEvent s
      else if js_gt (calcPercentageDragged s (dx inEvent)) percentageDraggedThreshold
      then swipe fastSwipeSpeed s
      else backOutSwipe s)"

text \<open>
  Everything that can reach the swipe code of a list: the five handlers and a
  pending timeout firing. Each runs to completion before the next.
\<close>

datatype input =
    DragStart gesture
  | Drag gesture
  | Flick gesture
  | DragFinish gesture
  | TransitionEnd gesture
  | TimerFires nat

fun handle :: "rows \<Rightarrow> input \<Rightarrow> swiper \<Rightarrow> swiper" where
  "handle rs (DragStart e) s = dragstart rs e s"
| "handle rs (Drag e) s = drag e s"
| "handle rs (Flick e) s = flick e s"
| "handle rs (DragFinish e) s = dragfinish e s"
| "handle rs (TransitionEnd e) s = transitionComplete e s"
| "handle rs (TimerFires n) s = timerFires n s"

fun run :: "rows \<Rightarrow> input list \<Rightarrow> swiper \<Rightarrow> swiper" where
  "run rs [] s = s"
| "run rs (i # is) s = run rs is (handle rs i s)"

text \<open>
  The swipe fields as the kind declares them (\<open>swipeIndex: null\<close>, \<open>flicked: false\<close>,
  ...), for a list with the given options and number of swipeable components. The
  panel's chrome starts with \<open>top:-1000px\<close>; its other styles are unset and read
  here as \<open>0\<close>.
\<close>

definition createdSwiper :: "bool \<Rightarrow> bool \<Rightarrow> nat \<Rightarrow> swiper" where
  "createdSwiper en persist n =
     \<lparr>enableSwipe = en, persistSwipeableItem = persist, swipeableControls = n,
      swipeIndex = None, swipeDirection = None, persistentItemVisisble = False,
      persistentItemOrigin = None, swipeComplete = False, completeSwipeTimeout = None,
      flicked = False, showing = True, panelTop = - 1000, translateX = 0, panelWidth = 0,
      panelHeight = 0, transition = NoTransition, emitted = [], timers = [], nextTimer = 1\<rparr>"

section \<open>Example lists\<close>

text \<open>
  A viewport of 400 pixels in which every page renders 1000 pixels high (50 rows of
  20 pixels), and the three-page list of 150 rows after \<open>reset\<close>, top-down and
  bottom-up, before any page has been generated.
\<close>

definition exampleDom :: dom where
  "exampleDom = \<lparr>listHeight = 400, renderedHeight = (\<lambda>p. 1000)\<rparr>"

definition exampleList :: "bool \<Rightarrow> pager" where
  "exampleList bu =
     \<lparr>count = 150, rowsPerPage = 50, bottomUp = bu, fixedHeight = False, rowHeight = 0,
      defaultPageHeight = 5000, pageCount = 3, portSize = 15000, scrollerHeight = 400,
      pageHeights = Map.empty, p0 = None, p1 = None, page = 0,
      generatorRowOffset = 0, generatorCount = 0,
      page0 = emptyCtl, page1 = emptyCtl, portHeight = 15000\<rparr>"

text \<open>
  The same list once its row height is known (20 pixels, so pages of 1000), and the
  list with no rows, whose pages render empty.
\<close>

definition measuredList :: pager where
  "measuredList =
     \<lparr>count = 150, rowsPerPage = 50, bottomUp = False, fixedHeight = False, rowHeight = 20,
      defaultPageHeight = 1000, pageCount = 3, portSize = 3000, scrollerHeight = 400,
      pageHeights = Map.empty, p0 = None, p1 = None, page = 0,
      generatorRowOffset = 0, generatorCount = 0,
      page0 = emptyCtl, page1 = emptyCtl, portHeight = 3000\<rparr>"

text \<open>A rendering surface on which page 1 comes out taller (1200 pixels).\<close>

definition tallDom :: dom where
  "tallDom = \<lparr>listHeight = 400, renderedHeight = (\<lambda>p. if p = 1 then 1200 else 1000)\<rparr>"

text \<open>A rendering surface on which every page comes out 1010 pixels high.\<close>

definition oddDom :: dom where
  "oddDom = \<lparr>listHeight = 400, renderedHeight = (\<lambda>p. 1010)\<rparr>"

definition emptyDom :: dom where
  "emptyDom = \<lparr>listHeight = 400, renderedHeight = (\<lambda>p. 0)\<rparr>"

definition emptyList :: pager where
  "emptyList =
     \<lparr>count = 0, rowsPerPage = 50, bottomUp = False, fixedHeight = False, rowHeight = 0,
      defaultPageHeight = 5000, pageCount = 0, portSize = 0, scrollerHeight = 400,
      pageHeights = Map.empty, p0 = None, p1 = None, page = 0,
      generatorRowOffset = 0, generatorCount = 0,
      page0 = emptyCtl, page1 = emptyCtl, portHeight = 400\<rparr>"

text \<open>
  A relation between a state and a later one, used to follow the persistence option
  through the handlers: the option is on later only if it was on before, and the
  panel is persistent later only if it was before or the option was on.
\<close>

definition settled :: "swiper \<Rightarrow> swiper \<Rightarrow> bool" where
  "settled s s' \<longleftrightarrow>
     (persistSwipeableItem s' \<longrightarrow> persistSwipeableItem s)
     \<and> (persistentItemVisisble s' \<longrightarrow> persistentItemVisisble s \<or> persistSwipeableItem s)"

section \<open>Example gestures\<close>

text \<open>
  Rows 100 pixels wide and 20 high, a horizontal gesture on a row with a direction
  and a net delta, a vertical one, a flick with a horizontal velocity, and the
  transition-end event of the action panel.
\<close>

definition exampleRows :: rows where
  "exampleRows = (\<lambda>i. Some \<lparr>nodeTop = 40, nodeWidth = 100, nodeHeight = 20\<rparr>)"

definition gestureOn :: "int \<Rightarrow> int \<Rightarrow> int \<Rightarrow> gesture" where
  "gestureOn i xd x =
     \<lparr>index = Some i, xDirection = Some xd, dx = x, ddx = 0, xVelocity = 0, yVelocity = 0,
      vertical = False, originator = ''client''\<rparr>"

definition verticalGesture :: "int \<Rightarrow> gesture" where
  "verticalGesture i = (gestureOn i 1 5)\<lparr>vertical := True\<rparr>"

definition flickOn :: "int \<Rightarrow> rat \<Rightarrow> gesture" where
  "flickOn i v = (gestureOn i (if v > 0 then 1 else - 1) 0)\<lparr>xVelocity := v\<rparr>"

definition panelTransitionEnd :: gesture where
  "panelTransitionEnd =
     \<lparr>index = None, xDirection = None, dx = 0, ddx = 0, xVelocity = 0, yVelocity = 0,
      vertical = False, originator = ''swipeableComponents''\<rparr>"

text \<open>
  A list with swiping enabled and one swipeable component, after the drag-start of a
  rightward gesture on row 3: the panel is shown one width to the left of the row.
\<close>

definition swipingList :: swiper where
  "swipingList = dragstart exampleRows (gestureOn 3 1 0) (createdSwiper True False 1)"

text \<open>
  The same list with the panel left open: the application turns on
  \<open>persistSwipeableItem\<close> while the panel is set up, the drag ends past the
  threshold, the transition ends and the completion timer fires.
\<close>

definition persistentList :: swiper where
  "persistentList =
     run exampleRows [DragFinish (gestureOn 3 1 60), TransitionEnd panelTransitionEnd, TimerFires 1]
       (setPersistSwipeableItem True swipingList)"

section \<open>Properties of the paging engine\<close>

subsection \<open>The loops\<close>

lemma pageToPositionLoop_sum:
  "pageToPositionLoop s p y = y + (\<Sum>q = 0..<p. getPageHeight s q)"
proof (induction s p y rule: pageToPositionLoop.induct)
  case (1 s p y)
  show ?case
  proof (cases "p > 0")
    case True
    have split: "{0..<p} = insert (p - 1) {0..<p - 1}" using True by auto
    have "(\<Sum>q = 0..<p. getPageHeight s q) = getPageHeight s (p - 1) + (\<Sum>q = 0..<p - 1. getPageHeight s q)"
      by (subst split) simp
    with True 1 show ?thesis
      by (subst pageToPositionLoop.simps) simp
  next
    case False
    then show ?thesis by (subst pageToPositionLoop.simps) simp
  qed
qed

lemma pageToPosition_sum: "pageToPosition s p = (\<Sum>q = 0..<p. getPageHeight s q)"
  by (simp add: pageToPosition_def pageToPositionLoop_sum)

lemma pageToPosition_nonpos: "p \<le> 0 \<Longrightarrow> pageToPosition s p = 0"
  by (simp add: pageToPosition_sum)

lemma pageToPosition_next:
  assumes "0 \<le> n"
  shows "pageToPosition s (n + 1) = pageToPosition s n + getPageHeight s n"
proof -
  have "{0..<n + 1} = insert n {0..<n}" using assms by auto
  then show ?thesis by (simp add: pageToPosition_sum)
qed

lemma pageToPosition_mono:
  assumes "0 \<le> a" and "a \<le> b" and "\<forall>q. a \<le> q \<and> q < b \<longrightarrow> 0 \<le> getPageHeight s q"
  shows "pageToPosition s a \<le> pageToPosition s b"
  using assms
proof (induction "nat (b - a)" arbitrary: b)
  case 0
  then show ?case by simp
next
  case (Suc n)
  then have "n = nat ((b - 1) - a)" and "a \<le> b - 1" by auto
  with Suc have "pageToPosition s a \<le> pageToPosition s (b - 1)" by auto
  moreover have "pageToPosition s b = pageToPosition s (b - 1) + getPageHeight s (b - 1)"
    using pageToPosition_next[of "b - 1" s] Suc.prems \<open>a \<le> b - 1\<close> by simp
  moreover have "0 \<le> getPageHeight s (b - 1)" using Suc.prems \<open>a \<le> b - 1\<close> by simp
  ultimately show ?case by simp
qed

lemma pageInfoLoop_neg:
  "p < 0 \<Longrightarrow> pageInfoLoop s pg h p = Some \<lparr>no = pg, height = h, pos = p + h\<rparr>"
  by (subst pageInfoLoop.simps) simp

lemma pageInfoLoop_step:
  "0 \<le> p \<Longrightarrow> pageInfoLoop s pg h p
     = pageInfoLoop s (pg + 1) (getPageHeight s (pg + 1)) (p - getPageHeight s (pg + 1))"
  by (subst pageInfoLoop.simps) simp

lemma pageInfoLoop_found:
  assumes "- 1 \<le> pg" and "pg < b"
    and "\<forall>q. pg < q \<and> q < b \<longrightarrow> 0 \<le> getPageHeight s q"
    and "pageToPosition s b \<le> y" and "y < pageToPosition s (b + 1)"
  shows "pageInfoLoop s pg h (y - pageToPosition s (pg + 1))
         = Some \<lparr>no = b, height = getPageHeight s b, pos = y - pageToPosition s b\<rparr>"
  using assms
proof (induction "nat (b - pg)" arbitrary: pg h)
  case 0
  then show ?case by simp
next
  case (Suc n)
  have mono: "pageToPosition s (pg + 1) \<le> pageToPosition s b"
    using Suc.prems by (intro pageToPosition_mono) auto
  then have nonneg: "0 \<le> y - pageToPosition s (pg + 1)" using Suc.prems by simp
  have nxt: "pageToPosition s (pg + 1 + 1) = pageToPosition s (pg + 1) + getPageHeight s (pg + 1)"
    using pageToPosition_next[of "pg + 1" s] Suc.prems by simp
  have step: "pageInfoLoop s pg h (y - pageToPosition s (pg + 1))
      = pageInfoLoop s (pg + 1) (getPageHeight s (pg + 1)) (y - pageToPosition s (pg + 1 + 1))"
    using pageInfoLoop_step[OF nonneg, of s pg h] nxt by (simp add: algebra_simps)
  show ?case
  proof (cases "pg + 1 = b")
    case True
    then have "y - pageToPosition s (pg + 1 + 1) < 0" using Suc.prems by simp
    then show ?thesis using step True nxt by (simp add: pageInfoLoop_neg)
  next
    case False
    then have "n = nat (b - (pg + 1))" "pg + 1 < b" "- 1 \<le> pg + 1" using Suc by auto
    moreover have "\<forall>q. pg + 1 < q \<and> q < b \<longrightarrow> 0 \<le> getPageHeight s q" using Suc.prems by auto
    ultimately have "pageInfoLoop s (pg + 1) (getPageHeight s (pg + 1)) (y - pageToPosition s (pg + 1 + 1))
       = Some \<lparr>no = b, height = getPageHeight s b, pos = y - pageToPosition s b\<rparr>"
      using Suc.hyps(1)[of "pg + 1" "getPageHeight s (pg + 1)"] Suc.prems by simp
    then show ?thesis using step by simp
  qed
qed

lemma positionToPageInfo_found:
  assumes "0 \<le> b"
    and "\<forall>q. 0 \<le> q \<and> q < b \<longrightarrow> 0 \<le> getPageHeight s q"
    and "pageToPosition s b \<le> calcPos s y" and "calcPos s y < pageToPosition s (b + 1)"
  shows "positionToPageInfo s y
         = Some \<lparr>no = b, height = getPageHeight s b, pos = calcPos s y - pageToPosition s b\<rparr>"
  using pageInfoLoop_found[of "- 1" b s "calcPos s y" "defaultPageHeight s"] assms
  by (simp add: positionToPageInfo_def pageToPosition_nonpos)

lemma pageToPosition_grows:
  assumes "\<forall>q. 0 \<le> q \<longrightarrow> 0 < getPageHeight s q"
  shows "int n \<le> pageToPosition s (int n)"
proof (induction n)
  case 0
  then show ?case by (simp add: pageToPosition_nonpos)
next
  case (Suc n)
  have "pageToPosition s (int n + 1) = pageToPosition s (int n) + getPageHeight s (int n)"
    by (rule pageToPosition_next) simp
  moreover have "0 < getPageHeight s (int n)" using assms by simp
  ultimately show ?case using Suc by (simp add: add.commute)
qed

lemma page_exists:
  assumes "\<forall>q. 0 \<le> q \<longrightarrow> 0 < getPageHeight s q" and "0 \<le> y"
  shows "\<exists>b. 0 \<le> b \<and> pageToPosition s b \<le> y \<and> y < pageToPosition s (b + 1)"
proof -
  define Q where "Q n \<longleftrightarrow> y < pageToPosition s (int n)" for n
  have "Q (nat y + 1)"
    using pageToPosition_grows[OF assms(1), of "nat y + 1"] assms(2) by (simp add: Q_def)
  then have ex: "\<exists>n. Q n" ..
  define m where "m = (LEAST n. Q n)"
  have Qm: "Q m" unfolding m_def using ex by (rule LeastI_ex)
  have "m \<noteq> 0"
  proof
    assume "m = 0"
    then have "y < pageToPosition s 0" using Qm by (simp add: Q_def)
    then show False using assms(2) by (simp add: pageToPosition_nonpos)
  qed
  then obtain k where k: "m = Suc k" by (cases m) auto
  have "\<not> Q k" using not_less_Least[of k Q] k by (simp add: m_def)
  then have "pageToPosition s (int k) \<le> y" by (simp add: Q_def)
  moreover have "y < pageToPosition s (int k + 1)" using Qm k by (simp add: Q_def add.commute)
  ultimately show ?thesis by (intro exI[of _ "int k"]) simp
qed

lemma js_rem_2: "js_rem k 2 = 0 \<longleftrightarrow> even k"
  by (auto simp: js_rem_def sgn_if)


lemma sumPageHeights_sum:
  "sumPageHeights s i acc = acc + (\<Sum>q = i..<pageCount s. getPageHeight s q)"
proof (induction s i acc rule: sumPageHeights.induct)
  case (1 s i acc)
  show ?case
  proof (cases "i < pageCount s")
    case True
    have "{i..<pageCount s} = insert i {i + 1..<pageCount s}" using True by auto
    then have "(\<Sum>q = i..<pageCount s. getPageHeight s q)
        = getPageHeight s i + (\<Sum>q = i + 1..<pageCount s. getPageHeight s q)"
      by simp
    with True 1 show ?thesis by (subst sumPageHeights.simps) simp
  next
    case False
    then show ?thesis by (subst sumPageHeights.simps) simp
  qed
qed

lemma calcPos_involution: "calcPos s (calcPos s y) = y"
  by (simp add: calcPos_def)

lemma isPageInRange_iff:
  "isPageInRange s p \<longleftrightarrow> (0 \<le> p \<and> p \<le> pageCount s - 1) \<or> (p = 0 \<and> pageCount s \<le> 0)"
  by (auto simp: isPageInRange_def)

lemma exampleList_reset:
  "resetPages exampleDom (created 150 50 bu False) = Some (exampleList bu)"
  by (simp add: resetPages_def invalidateMetrics_def updateMetrics_def created_def
      exampleList_def exampleDom_def invalidatePages_def adjustPortSize_def Let_def
      sumPageHeights_sum getPageHeight_def emptyCtl_def)

lemma emptyList_reset:
  "resetPages emptyDom (created 0 50 False False) = Some emptyList"
  by (simp add: resetPages_def invalidateMetrics_def updateMetrics_def created_def
      emptyList_def emptyDom_def invalidatePages_def adjustPortSize_def Let_def
      sumPageHeights_sum getPageHeight_def emptyCtl_def)

text \<open>
  Claim C2. For every page \<open>p \<ge> 0\<close> whose pages \<open>0..p\<close> have positive
  heights (so for every valid page of a list with positive page heights),
  \<open>pageToPosition p\<close> is the sum of \<open>getPageHeight q\<close> for \<open>q = 0..p-1\<close>,
  and \<open>positionToPageInfo\<close> maps that position back to page \<open>p\<close> (at
  residual offset \<open>0\<close>): in either configuration when the position is passed
  through \<open>calcPos\<close>, which \<open>positionToPageInfo\<close> undoes, and directly when the
  list is top-down.
\<close>

theorem pageToPosition_round_trip:
  assumes "0 \<le> p" and "\<forall>q. 0 \<le> q \<and> q \<le> p \<longrightarrow> 0 < getPageHeight s q"
  shows "pageToPosition s p = (\<Sum>q = 0..<p. getPageHeight s q)
       \<and> positionToPageInfo s (calcPos s (pageToPosition s p))
           = Some \<lparr>no = p, height = getPageHeight s p, pos = 0\<rparr>
       \<and> (\<not> bottomUp s \<longrightarrow>
            positionToPageInfo s (pageToPosition s p)
              = Some \<lparr>no = p, height = getPageHeight s p, pos = 0\<rparr>)"
proof -
  have nxt: "pageToPosition s (p + 1) = pageToPosition s p + getPageHeight s p"
    using assms(1) by (rule pageToPosition_next)
  have pos: "0 < getPageHeight s p" using assms by simp
  have nonneg: "\<forall>q. 0 \<le> q \<and> q < p \<longrightarrow> 0 \<le> getPageHeight s q"
    using assms(2) by (simp add: less_imp_le)
  have found: "positionToPageInfo s (calcPos s (pageToPosition s p))
      = Some \<lparr>no = p, height = getPageHeight s p, pos = 0\<rparr>"
    using positionToPageInfo_found[of p s "calcPos s (pageToPosition s p)"] assms(1) nonneg nxt pos
    by (simp add: calcPos_involution)
  have topdown: "calcPos s (pageToPosition s p) = pageToPosition s p" if "\<not> bottomUp s"
    using that by (simp add: calcPos_def)
  from found topdown have "\<not> bottomUp s \<longrightarrow>
      positionToPageInfo s (pageToPosition s p)
        = Some \<lparr>no = p, height = getPageHeight s p, pos = 0\<rparr>"
    by auto
  with found pageToPosition_sum[of s p] show ?thesis by blast
qed

text \<open>
  The theorem of C2 at page 2 of the example list, bottom-up (the position 10000 is
  passed through \<open>calcPos\<close>, giving 4600) and top-down.
\<close>

theorem pageToPosition_round_trip_witness:
  "pageToPosition (exampleList True) 2 = 10000
   \<and> calcPos (exampleList True) 10000 = 4600
   \<and> positionToPageInfo (exampleList True) 4600 = Some \<lparr>no = 2, height = 5000, pos = 0\<rparr>
   \<and> positionToPageInfo (exampleList False) 10000 = Some \<lparr>no = 2, height = 5000, pos = 0\<rparr>"
proof -
  have h: "\<forall>q. 0 \<le> q \<and> q \<le> 2 \<longrightarrow> 0 < getPageHeight (exampleList bu) q" for bu
    by (simp add: getPageHeight_def exampleList_def)
  have s: "(\<Sum>q = 0..<2. getPageHeight (exampleList bu) q) = 10000" for bu
    by (simp add: getPageHeight_def exampleList_def)
  have g: "getPageHeight (exampleList bu) 2 = 5000" for bu
    by (simp add: getPageHeight_def exampleList_def)
  have c: "calcPos (exampleList True) 10000 = 4600" "\<not> bottomUp (exampleList False)"
    by (simp_all add: calcPos_def exampleList_def)
  show ?thesis
    using pageToPosition_round_trip[of 2 "exampleList True", OF _ h]
      pageToPosition_round_trip[of 2 "exampleList False", OF _ h] s c g
    by auto
qed

text \<open>
  Claim C9. \<open>positionToPageInfo\<close> does not clamp its result. A negative logical
  position gives page \<open>-1\<close>, with the default page height and \<open>pos\<close> computed
  from it. With positive page heights, a logical position at or beyond the summed
  height of pages \<open>0..pageCount-1\<close> gives a page number above \<open>pageCount-1\<close>.
  \<open>isPageInRange\<close> rejects \<open>-1\<close> always; it accepts exactly the page numbers
  within \<open>[0, pageCount-1]\<close> and, on a list with no pages, page \<open>0\<close> (the one
  out-of-range target it lets through, which is the case of C8); a slot of
  \<open>update\<close> whose target it rejects is left as it was.
\<close>

theorem positionToPageInfo_not_clamped:
  "(calcPos s y < 0 \<longrightarrow>
      positionToPageInfo s y
        = Some \<lparr>no = - 1, height = defaultPageHeight s, pos = calcPos s y + defaultPageHeight s\<rparr>)
   \<and> ((\<forall>q. 0 \<le> q \<longrightarrow> 0 < getPageHeight s q)
        \<and> (\<Sum>q = 0..<pageCount s. getPageHeight s q) \<le> calcPos s y \<longrightarrow>
      (\<exists>r. positionToPageInfo s y = Some r \<and> pageCount s - 1 < no r))
   \<and> \<not> isPageInRange s (- 1)
   \<and> (isPageInRange s n
        \<longleftrightarrow> (0 \<le> n \<and> n \<le> pageCount s - 1) \<or> (n = 0 \<and> pageCount s \<le> 0))
   \<and> (\<not> isPageInRange s n \<longrightarrow> updateSlot d t n (s, u) = Some (s, u))"
proof -
  have neg: "calcPos s y < 0 \<Longrightarrow> positionToPageInfo s y
        = Some \<lparr>no = - 1, height = defaultPageHeight s, pos = calcPos s y + defaultPageHeight s\<rparr>"
    by (simp add: positionToPageInfo_def pageInfoLoop_neg)
  have beyond: "\<exists>r. positionToPageInfo s y = Some r \<and> pageCount s - 1 < no r"
    if hs: "\<forall>q. 0 \<le> q \<longrightarrow> 0 < getPageHeight s q"
      and ext: "(\<Sum>q = 0..<pageCount s. getPageHeight s q) \<le> calcPos s y"
  proof -
    have "0 \<le> (\<Sum>q = 0..<pageCount s. getPageHeight s q)"
      using hs by (intro sum_nonneg) (simp add: less_imp_le)
    then have y0: "0 \<le> calcPos s y" using ext by simp
    obtain b where b: "0 \<le> b" "pageToPosition s b \<le> calcPos s y"
        "calcPos s y < pageToPosition s (b + 1)"
      using page_exists[OF hs y0] by blast
    have nonneg: "\<forall>q. 0 \<le> q \<and> q < b \<longrightarrow> 0 \<le> getPageHeight s q"
      using hs by (simp add: less_imp_le)
    have r: "positionToPageInfo s y
        = Some \<lparr>no = b, height = getPageHeight s b, pos = calcPos s y - pageToPosition s b\<rparr>"
      using positionToPageInfo_found[OF b(1) nonneg b(2) b(3)] .
    have "pageCount s \<le> b"
    proof (rule ccontr)
      assume "\<not> pageCount s \<le> b"
      then have le: "b + 1 \<le> pageCount s" by simp
      have "pageToPosition s (b + 1) \<le> pageToPosition s (pageCount s)"
        using b(1) le hs by (intro pageToPosition_mono) (simp_all add: less_imp_le)
      then show False using b(3) ext by (simp add: pageToPosition_sum)
    qed
    then show ?thesis using r by simp
  qed
  show ?thesis using neg beyond
    by (auto simp: isPageInRange_iff updateSlot_def)
qed

text \<open>
  The theorem of C9 on the measured list: position \<open>-50\<close> gives page \<open>-1\<close>,
  position 3000, the summed extent of its three pages, gives page 3, and page 3 is
  rejected by \<open>isPageInRange\<close>; on the list with no rows page 0 is accepted.
\<close>

theorem positionToPageInfo_not_clamped_witness:
  "calcPos measuredList (- 50) < 0
   \<and> positionToPageInfo measuredList (- 50) = Some \<lparr>no = - 1, height = 1000, pos = 950\<rparr>
   \<and> (\<Sum>q = 0..<pageCount measuredList. getPageHeight measuredList q) = 3000
   \<and> calcPos measuredList 3000 = 3000
   \<and> positionToPageInfo measuredList 3000 = Some \<lparr>no = 3, height = 1000, pos = 0\<rparr>
   \<and> pageCount measuredList = 3
   \<and> \<not> isPageInRange measuredList 3
   \<and> updateSlot exampleDom Page1 3 (measuredList, False) = Some (measuredList, False)
   \<and> pageCount emptyList = 0
   \<and> isPageInRange emptyList 0"
proof -
  have a: "calcPos measuredList (- 50) = - 50" "calcPos measuredList 3000 = 3000"
      "defaultPageHeight measuredList = 1000" "pageCount measuredList = 3"
    by (simp_all add: calcPos_def measuredList_def)
  have h: "\<forall>q. 0 \<le> q \<longrightarrow> 0 < getPageHeight measuredList q"
    by (simp add: getPageHeight_def measuredList_def)
  have s: "(\<Sum>q = 0..<pageCount measuredList. getPageHeight measuredList q) = 3000"
    by (simp add: getPageHeight_def measuredList_def)
  have n3: "positionToPageInfo measuredList 3000 = Some \<lparr>no = 3, height = 1000, pos = 0\<rparr>"
    by code_simp
  have nr: "\<not> isPageInRange measuredList 3"
    using positionToPageInfo_not_clamped[of measuredList 0 3] a by simp
  have e: "pageCount emptyList = 0" by (simp add: emptyList_def)
  have er: "isPageInRange emptyList 0"
    using positionToPageInfo_not_clamped[of emptyList 0 0] e by simp
  show ?thesis
    using positionToPageInfo_not_clamped[of measuredList "- 50" 3 exampleDom Page1 False]
      positionToPageInfo_not_clamped[of measuredList 3000 3 exampleDom Page1 False] a h s n3 nr
      e er
    by simp
qed

subsection \<open>What generating a page leaves alone\<close>


lemma page0Target_even: "even (page0Target k) \<and> page0Target k \<in> {k, k - 1}"
  by (simp add: page0Target_def js_rem_2)

lemma page1Target_odd:
  "odd (page1Target k) \<and> page1Target k = (if even k then max 1 (k - 1) else k)"
  by (auto simp: page1Target_def js_rem_2 max_def)

lemma updateMetrics_frame:
  assumes "updateMetrics d s = Some s1"
  shows "p0 s1 = p0 s \<and> p1 s1 = p1 s \<and> page0 s1 = page0 s \<and> page1 s1 = page1 s
       \<and> count s1 = count s \<and> rowsPerPage s1 = rowsPerPage s \<and> fixedHeight s1 = fixedHeight s
       \<and> pageCount s1 = - ((- count s) div rowsPerPage s)"
  using assms
  by (auto simp: updateMetrics_def adjustPortSize_def Let_def split: if_splits)

lemma recordPageHeight_frame:
  "p0 (recordPageHeight p h s) = p0 s \<and> p1 (recordPageHeight p h s) = p1 s
   \<and> page0 (recordPageHeight p h s) = page0 s \<and> page1 (recordPageHeight p h s) = page1 s
   \<and> count (recordPageHeight p h s) = count s
   \<and> rowsPerPage (recordPageHeight p h s) = rowsPerPage s
   \<and> fixedHeight (recordPageHeight p h s) = fixedHeight s
   \<and> pageCount (recordPageHeight p h s) = pageCount s"
  by (simp add: recordPageHeight_def Let_def)

lemma renderPage_frame:
  "p0 (renderPage p t s) = p0 s \<and> p1 (renderPage p t s) = p1 s
   \<and> count (renderPage p t s) = count s \<and> rowsPerPage (renderPage p t s) = rowsPerPage s
   \<and> fixedHeight (renderPage p t s) = fixedHeight s
   \<and> pageCount (renderPage p t s) = pageCount s
   \<and> rowHeight (renderPage p t s) = rowHeight s
   \<and> portSize (renderPage p t s) = portSize s
   \<and> pageHeights (renderPage p t s) = pageHeights s
   \<and> defaultPageHeight (renderPage p t s) = defaultPageHeight s
   \<and> renders (getSlot t (renderPage p t s)) = Suc (renders (getSlot t s))
   \<and> getSlot (other t) (renderPage p t s) = getSlot (other t) s"
  by (cases t) (simp_all add: renderPage_def setSlot_def getSlot_def other_def Let_def)

lemma inferRowHeight_frame:
  assumes "inferRowHeight d h rpp s = Some s1"
  shows "p0 s1 = p0 s \<and> p1 s1 = p1 s \<and> page0 s1 = page0 s \<and> page1 s1 = page1 s
       \<and> count s1 = count s \<and> rowsPerPage s1 = rowsPerPage s \<and> fixedHeight s1 = fixedHeight s
       \<and> (pageCount s1 = pageCount s \<or> pageCount s1 = - ((- count s) div rowsPerPage s))"
proof (cases "rowHeight s = 0 \<and> h > 0")
  case True
  then have "updateMetrics d (s\<lparr>rowHeight := h div rpp\<rparr>) = Some s1"
    using assms by (auto simp: inferRowHeight_def split: if_splits)
  from updateMetrics_frame[OF this] show ?thesis by simp
next
  case False
  then have "s1 = s" using assms by (auto simp: inferRowHeight_def)
  then show ?thesis by simp
qed

lemma getSlot_cong:
  "page0 a = page0 b \<Longrightarrow> page1 a = page1 b \<Longrightarrow> getSlot t a = getSlot t b"
  by (cases t) (simp_all add: getSlot_def)

lemma generatePage_frame:
  assumes "generatePage d p t s = Some s1"
  shows "p0 s1 = p0 s \<and> p1 s1 = p1 s
       \<and> count s1 = count s \<and> rowsPerPage s1 = rowsPerPage s \<and> fixedHeight s1 = fixedHeight s
       \<and> (pageCount s1 = pageCount s \<or> pageCount s1 = - ((- count s) div rowsPerPage s))
       \<and> renders (getSlot t s1) = Suc (renders (getSlot t s))
       \<and> getSlot (other t) s1 = getSlot (other t) s"
proof -
  define s3 where "s3 = renderPage p t s"
  define h where "h = renderedHeight d p"
  obtain s4 where s4: "inferRowHeight d h (generatorCount s3) s3 = Some s4"
    and s1: "s1 = (if \<not> fixedHeight s4 then recordPageHeight p h s4 else s4)"
    using assms by (auto simp: generatePage_def Let_def s3_def h_def split: option.splits)
  note f3 = renderPage_frame[of p t s, folded s3_def]
  note f4 = inferRowHeight_frame[OF s4]
  note f1 = recordPageHeight_frame[of p h s4]
  have g4: "getSlot t' s4 = getSlot t' s3" for t'
    using f4 by (intro getSlot_cong) simp_all
  have g1: "getSlot t' s1 = getSlot t' s4" for t'
    using f1 by (intro getSlot_cong) (simp_all add: s1)
  have a: "p0 s1 = p0 s \<and> p1 s1 = p1 s \<and> count s1 = count s \<and> rowsPerPage s1 = rowsPerPage s
      \<and> fixedHeight s1 = fixedHeight s" using f1 f3 f4 by (simp add: s1)
  have b: "pageCount s1 = pageCount s \<or> pageCount s1 = - ((- count s) div rowsPerPage s)"
    using f1 f3 f4 by (auto simp: s1)
  have c: "renders (getSlot t s1) = Suc (renders (getSlot t s))
      \<and> getSlot (other t) s1 = getSlot (other t) s"
    using f3 by (simp add: g1 g4)
  from a b c show ?thesis by blast
qed

lemma positionPage_frame:
  "p0 (positionPage q t s) = p0 s \<and> p1 (positionPage q t s) = p1 s
   \<and> count (positionPage q t s) = count s \<and> rowsPerPage (positionPage q t s) = rowsPerPage s
   \<and> fixedHeight (positionPage q t s) = fixedHeight s
   \<and> pageCount (positionPage q t s) = pageCount s
   \<and> renders (getSlot t' (positionPage q t s)) = renders (getSlot t' s)"
  by (cases t; cases t') (simp_all add: positionPage_def setSlot_def getSlot_def Let_def)

lemma setP_frame:
  "getP t (setP t p s) = Some p \<and> getP (other t) (setP t p s) = getP (other t) s
   \<and> count (setP t p s) = count s \<and> rowsPerPage (setP t p s) = rowsPerPage s
   \<and> fixedHeight (setP t p s) = fixedHeight s
   \<and> pageCount (setP t p s) = pageCount s
   \<and> getSlot t' (setP t p s) = getSlot t' s"
  by (cases t; cases t') (simp_all add: setP_def getP_def getSlot_def other_def)

lemma getP_cong: "p0 a = p0 b \<Longrightarrow> p1 a = p1 b \<Longrightarrow> getP t a = getP t b"
  by (cases t) (simp_all add: getP_def)

lemma updateSlot_effect:
  assumes "updateSlot d t p (s, u) = Some (s1, u1)"
    and "pageCount s = - ((- count s) div rowsPerPage s)"
  shows "(if getP t s \<noteq> Some p \<and> isPageInRange s p
          then renders (getSlot t s1) = Suc (renders (getSlot t s)) \<and> getP t s1 = Some p \<and> u1
          else s1 = s \<and> u1 = u)
       \<and> renders (getSlot (other t) s1) = renders (getSlot (other t) s)
       \<and> getP (other t) s1 = getP (other t) s
       \<and> count s1 = count s \<and> rowsPerPage s1 = rowsPerPage s \<and> pageCount s1 = pageCount s
       \<and> fixedHeight s1 = fixedHeight s"
proof (cases "getP t s \<noteq> Some p \<and> isPageInRange s p")
  case True
  then obtain g where g: "generatePage d p t s = Some g"
    and s1: "s1 = setP t p (positionPage (Some p) t g)" and u1: "u1"
    using assms(1) by (auto simp: updateSlot_def split: option.splits)
  note fg = generatePage_frame[OF g]
  note fp = positionPage_frame[of "Some p" t g]
  note fs = setP_frame[of t p "positionPage (Some p) t g"]
  have "getP (other t) g = getP (other t) s" using fg by (intro getP_cong) simp_all
  moreover have "getP (other t) (positionPage (Some p) t g) = getP (other t) g"
    using fp by (intro getP_cong) simp_all
  ultimately have o: "getP (other t) s1 = getP (other t) s" using fs by (simp add: s1)
  have r: "renders (getSlot t' s1) = renders (getSlot t' g)" for t'
    using positionPage_frame[of "Some p" t g t'] setP_frame[of t p "positionPage (Some p) t g" t']
    by (simp add: s1)
  have pc: "pageCount s1 = pageCount s" using fg fp fs assms(2) by (auto simp: s1)
  have rest: "count s1 = count s \<and> rowsPerPage s1 = rowsPerPage s \<and> fixedHeight s1 = fixedHeight s"
    using fg fp fs by (simp add: s1)
  have "renders (getSlot t s1) = Suc (renders (getSlot t s))" using fg by (simp add: r)
  moreover have "renders (getSlot (other t) s1) = renders (getSlot (other t) s)"
    using fg by (simp add: r)
  moreover have "getP t s1 = Some p" using fs by (simp add: s1)
  ultimately show ?thesis using True u1 o pc rest by simp
next
  case False
  then have "s1 = s \<and> u1 = u" using assms(1) by (auto simp: updateSlot_def)
  then show ?thesis using False by simp
qed


lemma adjust_renders:
  "renders (getSlot t (adjustPortSize d (adjustBottomPage s))) = renders (getSlot t s)"
proof -
  have a: "getSlot t (adjustPortSize d x) = getSlot t x" for x
    by (cases t) (simp_all add: adjustPortSize_def getSlot_def Let_def)
  show ?thesis
    using positionPage_frame[of _ _ s t] by (simp add: a adjustBottomPage_def Let_def)
qed

lemma isPageInRange_cong: "pageCount a = pageCount b \<Longrightarrow> isPageInRange a p = isPageInRange b p"
  by (simp add: isPageInRange_def)

subsection \<open>The two slots of \<open>update\<close>\<close>

text \<open>
  Claim C7, as the code has it. Let \<open>k\<close> be the leap-frog index \<open>update\<close>
  computes, on a list whose page count is current (\<open>Math.ceil(count / rowsPerPage)\<close>,
  as \<open>updateMetrics\<close> leaves it) and at least one. Slot
  \<open>page0\<close> targets the even one of \<open>k\<close> and \<open>k - 1\<close>. Slot \<open>page1\<close>
  targets an odd page: \<open>k\<close> itself, unclamped, when \<open>k\<close> is odd, and
  \<open>max 1 (k - 1)\<close> when \<open>k\<close> is even, so never less than page 1 then. A slot is
  regenerated exactly when its target differs from the page it holds and lies within
  \<open>[0, pageCount - 1]\<close>.
\<close>

theorem update_slot_targets:
  assumes "update d y s = Some s'"
    and "pageCount s = - ((- count s) div rowsPerPage s)"
    and "1 \<le> pageCount s"
  shows "\<exists>info k. positionToPageInfo s y = Some info \<and> leapFrogIndex s info = Some k
      \<and> even (page0Target k) \<and> page0Target k \<in> {k, k - 1}
      \<and> odd (page1Target k) \<and> page1Target k = (if even k then max 1 (k - 1) else k)
      \<and> (renders (page0 s') \<noteq> renders (page0 s)
           \<longleftrightarrow> p0 s \<noteq> Some (page0Target k)
               \<and> 0 \<le> page0Target k \<and> page0Target k \<le> pageCount s - 1)
      \<and> (renders (page1 s') \<noteq> renders (page1 s)
           \<longleftrightarrow> p1 s \<noteq> Some (page1Target k)
               \<and> 0 \<le> page1Target k \<and> page1Target k \<le> pageCount s - 1)"
proof -
  obtain info k sa ua sb ub where info: "positionToPageInfo s y = Some info"
    and k: "leapFrogIndex s info = Some k"
    and a: "updateSlot d Page0 (page0Target k) (s, False) = Some (sa, ua)"
    and b: "updateSlot d Page1 (page1Target k) (sa, ua) = Some (sb, ub)"
    and s': "s' = (if ub \<and> \<not> fixedHeight sb then adjustPortSize d (adjustBottomPage sb) else sb)"
    using assms(1) by (auto simp: update_def split: option.splits prod.splits)
  note ea = updateSlot_effect[OF a assms(2)]
  have inv: "pageCount sa = - ((- count sa) div rowsPerPage sa)" using ea assms(2) by simp
  note eb = updateSlot_effect[OF b inv]
  have fin: "renders (getSlot t s') = renders (getSlot t sb)" for t
    by (simp add: s' adjust_renders)
  have range: "isPageInRange s p \<longleftrightarrow> 0 \<le> p \<and> p \<le> pageCount s - 1" for p
    using assms(3) by (auto simp: isPageInRange_iff)
  have rangea: "isPageInRange sa p \<longleftrightarrow> 0 \<le> p \<and> p \<le> pageCount s - 1" for p
    using isPageInRange_cong[of sa s p] ea range by simp
  have r0: "renders (page0 s') \<noteq> renders (page0 s)
      \<longleftrightarrow> p0 s \<noteq> Some (page0Target k) \<and> 0 \<le> page0Target k \<and> page0Target k \<le> pageCount s - 1"
  proof -
    have "renders (page0 s') = renders (page0 sa)"
      using fin[of Page0] eb by (simp add: getSlot_def other_def)
    moreover have "renders (page0 sa) \<noteq> renders (page0 s)
        \<longleftrightarrow> p0 s \<noteq> Some (page0Target k) \<and> isPageInRange s (page0Target k)"
      using ea by (auto simp: getSlot_def getP_def split: if_splits)
    ultimately show ?thesis by (simp add: range)
  qed
  have r1: "renders (page1 s') \<noteq> renders (page1 s)
      \<longleftrightarrow> p1 s \<noteq> Some (page1Target k) \<and> 0 \<le> page1Target k \<and> page1Target k \<le> pageCount s - 1"
  proof -
    have "renders (page1 sa) = renders (page1 s)" "p1 sa = p1 s"
      using ea by (simp_all add: getSlot_def getP_def other_def)
    moreover have "renders (page1 s') \<noteq> renders (page1 sa)
        \<longleftrightarrow> p1 sa \<noteq> Some (page1Target k) \<and> isPageInRange sa (page1Target k)"
      using eb fin[of Page1] by (auto simp: getSlot_def getP_def split: if_splits)
    ultimately show ?thesis by (simp add: rangea)
  qed
  show ?thesis
    using info k page0Target_even[of k] page1Target_odd[of k] r0 r1 by blast
qed

text \<open>
  The first update of the example list, at scroll position \<open>0\<close>: the index is
  \<open>0\<close>, page 0 goes to slot \<open>page0\<close> and page 1 to slot \<open>page1\<close>.
\<close>

lemma ex_update:
  "positionToPageInfo (exampleList False) 0 = Some \<lparr>no = 0, height = 5000, pos = 0\<rparr>
   \<and> leapFrogIndex (exampleList False) \<lparr>no = 0, height = 5000, pos = 0\<rparr> = Some 0
   \<and> page0Target 0 = 0 \<and> page1Target 0 = 1
   \<and> map_option (\<lambda>s. (p0 s, content (page0 s), renders (page0 s), p1 s, content (page1 s), renders (page1 s)))
        (update exampleDom 0 (exampleList False))
      = Some (Some 0, Some (0, 50), 1, Some 1, Some (50, 50), 1)"
  by code_simp

text \<open>
  Claim C7 as stated fails there: for \<open>k = 0\<close> the odd one of \<open>k\<close> and
  \<open>k - 1\<close> is \<open>-1\<close>, which clamped to page 0 is \<open>0\<close>, but slot \<open>page1\<close>
  targets, and receives, page 1.
\<close>

theorem update_slot_targets_counterexample:
  "positionToPageInfo (exampleList False) 0 = Some \<lparr>no = 0, height = 5000, pos = 0\<rparr>
   \<and> leapFrogIndex (exampleList False) \<lparr>no = 0, height = 5000, pos = 0\<rparr> = Some 0
   \<and> page1Target 0 = 1
   \<and> page1Target 0 \<noteq> max 0 (0 - 1)
   \<and> map_option (\<lambda>s. (p1 s, content (page1 s)))
        (update exampleDom 0 (exampleList False)) = Some (Some 1, Some (50, 50))"
  by code_simp

text \<open>
  Claim C8 against the code. The list with no rows has \<open>pageCount = 0\<close> after
  \<open>reset\<close>, yet \<open>isPageInRange\<close> accepts page 0 (its clamp yields \<open>0\<close> for an
  empty range), and \<open>update\<close> at scroll position \<open>0\<close> generates page 0, a
  window of zero rows, into slot \<open>page0\<close> and records it in \<open>p0\<close>; slot
  \<open>page1\<close> stays empty.
\<close>

theorem empty_list_generates_page:
  "resetPages emptyDom (created 0 50 False False) = Some emptyList
   \<and> count emptyList = 0 \<and> pageCount emptyList = 0
   \<and> isPageInRange emptyList 0
   \<and> map_option (\<lambda>s. (p0 s, content (page0 s), renders (page0 s), p1 s, content (page1 s)))
        (update emptyDom 0 emptyList) = Some (Some 0, Some (0, 0), 1, None, None)"
proof -
  have "count emptyList = 0 \<and> pageCount emptyList = 0 \<and> isPageInRange emptyList 0"
    by (simp add: emptyList_def isPageInRange_def)
  moreover have "map_option (\<lambda>s. (p0 s, content (page0 s), renders (page0 s), p1 s, content (page1 s)))
        (update emptyDom 0 emptyList) = Some (Some 0, Some (0, 0), 1, None, None)"
    by code_simp
  ultimately show ?thesis using emptyList_reset by simp
qed

text \<open>
  The theorem of C7 at scroll position 1200 of the measured list: the index is
  \<open>1\<close>, both slots are empty, and both are regenerated.
\<close>

theorem update_slot_targets_witness:
  "update exampleDom 1200 measuredList \<noteq> None
   \<and> positionToPageInfo measuredList 1200 = Some \<lparr>no = 1, height = 1000, pos = 200\<rparr>
   \<and> leapFrogIndex measuredList \<lparr>no = 1, height = 1000, pos = 200\<rparr> = Some 1
   \<and> page0Target 1 = 0 \<and> page1Target 1 = 1
   \<and> map_option (\<lambda>s. (renders (page0 s), renders (page1 s))) (update exampleDom 1200 measuredList)
       = Some (1, 1)"
proof -
  have ev: "positionToPageInfo measuredList 1200 = Some \<lparr>no = 1, height = 1000, pos = 200\<rparr>
   \<and> leapFrogIndex measuredList \<lparr>no = 1, height = 1000, pos = 200\<rparr> = Some 1
   \<and> page0Target 1 = 0 \<and> page1Target 1 = 1"
    by code_simp
  have ne: "update exampleDom 1200 measuredList \<noteq> None" by code_simp
  then obtain s' where s': "update exampleDom 1200 measuredList = Some s'" by blast
  have inv: "pageCount measuredList = - ((- count measuredList) div rowsPerPage measuredList)"
      "1 \<le> pageCount measuredList"
    by (simp_all add: measuredList_def)
  have st: "p0 measuredList = None" "p1 measuredList = None" "pageCount measuredList = 3"
      "renders (page0 measuredList) = 0" "renders (page1 measuredList) = 0"
    by (simp_all add: measuredList_def emptyCtl_def)
  from update_slot_targets[OF s' inv] ev st
  have "renders (page0 s') \<noteq> 0 \<and> renders (page1 s') \<noteq> 0" by auto
  moreover have "map_option (\<lambda>s. (renders (page0 s), renders (page1 s))) (update exampleDom 1200 measuredList)
       = Some (1, 1)" by code_simp
  ultimately show ?thesis using ev ne by simp
qed

lemma getPageHeight_cong:
  "pageHeights a = pageHeights b \<Longrightarrow> defaultPageHeight a = defaultPageHeight b
   \<Longrightarrow> getPageHeight a q = getPageHeight b q"
  by (simp add: getPageHeight_def split: option.splits)

lemma recordPageHeight_noop:
  "h \<le> 0 \<or> h = getPageHeight s p \<Longrightarrow> recordPageHeight p h s = s"
  by (auto simp: recordPageHeight_def Let_def)

lemma recordPageHeight_store:
  assumes "0 < h" and "h \<noteq> getPageHeight s p"
  shows "pageHeights (recordPageHeight p h s) = (pageHeights s)(p \<mapsto> h)
       \<and> portSize (recordPageHeight p h s) = portSize s + (h - getPageHeight s p)
       \<and> defaultPageHeight (recordPageHeight p h s) = defaultPageHeight s
       \<and> getPageHeight (recordPageHeight p h s) q = (if q = p then h else getPageHeight s q)"
  using assms by (auto simp: recordPageHeight_def Let_def getPageHeight_def split: option.splits)

lemma sum_one_changed:
  fixes f g :: "int \<Rightarrow> int"
  assumes "p \<in> A" and "finite A" and "\<forall>q. g q = (if q = p then h else f q)"
  shows "sum g A = sum f A + (h - f p)"
proof -
  have "sum g A = g p + sum g (A - {p})" using assms by (simp add: sum.remove)
  also have "sum g (A - {p}) = sum f (A - {p})" using assms(3) by (intro sum.cong) auto
  also have "g p = h" using assms(3) by simp
  finally show ?thesis using assms(1,2) by (simp add: sum.remove)
qed

lemma recordPageHeight_invariant:
  assumes "0 \<le> p" and "p < pageCount s"
    and "portSize s = (\<Sum>q = 0..<pageCount s. getPageHeight s q)"
  shows "portSize (recordPageHeight p h s)
       = (\<Sum>q = 0..<pageCount (recordPageHeight p h s). getPageHeight (recordPageHeight p h s) q)"
proof (cases "h \<le> 0 \<or> h = getPageHeight s p")
  case True
  then have "recordPageHeight p h s = s" by (rule recordPageHeight_noop)
  then show ?thesis using assms(3) by simp
next
  case False
  then have pos: "0 < h" and ne: "h \<noteq> getPageHeight s p" by simp_all
  note st = recordPageHeight_store[OF pos ne]
  have pc: "pageCount (recordPageHeight p h s) = pageCount s"
    using recordPageHeight_frame[of p h s] by simp
  have "\<forall>q. getPageHeight (recordPageHeight p h s) q = (if q = p then h else getPageHeight s q)"
    using st by simp
  then have "(\<Sum>q = 0..<pageCount s. getPageHeight (recordPageHeight p h s) q)
      = (\<Sum>q = 0..<pageCount s. getPageHeight s q) + (h - getPageHeight s p)"
    using assms(1,2) by (intro sum_one_changed) simp_all
  then show ?thesis using st[of p] assms(3) by (simp add: pc)
qed

lemma updateMetrics_invariant:
  assumes "updateMetrics d s = Some m"
  shows "portSize m = (\<Sum>q = 0..<pageCount m. getPageHeight m q) \<and> rowHeight m = rowHeight s"
proof -
  define s2 where "s2 = s\<lparr>defaultPageHeight :=
        rowsPerPage s * (if rowHeight s \<noteq> 0 then rowHeight s else 100),
      pageCount := - ((- count s) div rowsPerPage s)\<rparr>"
  have m: "m = adjustPortSize d (s2\<lparr>portSize := sumPageHeights s2 0 0\<rparr>)"
    using assms by (simp add: updateMetrics_def Let_def s2_def split: if_splits)
  have g: "getPageHeight m q = getPageHeight s2 q" for q
    by (intro getPageHeight_cong) (simp_all add: m adjustPortSize_def Let_def)
  have "portSize m = sumPageHeights s2 0 0" "pageCount m = pageCount s2"
      "rowHeight m = rowHeight s"
    by (simp_all add: m adjustPortSize_def Let_def s2_def)
  then show ?thesis by (simp add: sumPageHeights_sum g)
qed

lemma recordPageHeight_others:
  "q \<noteq> p \<Longrightarrow> getPageHeight (recordPageHeight p h s) q = getPageHeight s q"
  by (auto simp: recordPageHeight_def Let_def getPageHeight_def split: option.splits)

lemma recordPageHeight_metrics:
  "pageCount (recordPageHeight p h s) = pageCount s
   \<and> defaultPageHeight (recordPageHeight p h s) = defaultPageHeight s
   \<and> rowHeight (recordPageHeight p h s) = rowHeight s"
  by (simp add: recordPageHeight_def Let_def)

lemma inferRowHeight_known:
  "rowHeight s \<noteq> 0 \<or> h \<le> 0 \<Longrightarrow> inferRowHeight d h rpp s = Some s"
  by (auto simp: inferRowHeight_def)

lemma inferRowHeight_unset:
  assumes "rowHeight s = 0" and "0 < h"
  shows "inferRowHeight d h rpp s = None \<longleftrightarrow> rpp = 0 \<or> rowsPerPage s = 0"
    and "inferRowHeight d h rpp s = Some m \<Longrightarrow>
          pageHeights m = pageHeights s \<and> rowHeight m = h div rpp
          \<and> defaultPageHeight m = rowsPerPage s * (if rowHeight m \<noteq> 0 then rowHeight m else 100)
          \<and> pageCount m = - ((- count s) div rowsPerPage s)
          \<and> portSize m = (\<Sum>q = 0..<pageCount m. getPageHeight m q)"
proof -
  show "inferRowHeight d h rpp s = None \<longleftrightarrow> rpp = 0 \<or> rowsPerPage s = 0"
    using assms by (auto simp: inferRowHeight_def updateMetrics_def Let_def)
  assume m: "inferRowHeight d h rpp s = Some m"
  then have um: "updateMetrics d (s\<lparr>rowHeight := h div rpp\<rparr>) = Some m"
    using assms by (auto simp: inferRowHeight_def split: if_splits)
  have "pageHeights m = pageHeights s \<and> rowHeight m = h div rpp
      \<and> defaultPageHeight m = rowsPerPage s * (if rowHeight m \<noteq> 0 then rowHeight m else 100)
      \<and> pageCount m = - ((- count s) div rowsPerPage s)"
    using um by (auto simp: updateMetrics_def adjustPortSize_def Let_def split: if_splits)
  then show "pageHeights m = pageHeights s \<and> rowHeight m = h div rpp
          \<and> defaultPageHeight m = rowsPerPage s * (if rowHeight m \<noteq> 0 then rowHeight m else 100)
          \<and> pageCount m = - ((- count s) div rowsPerPage s)
          \<and> portSize m = (\<Sum>q = 0..<pageCount m. getPageHeight m q)"
    using updateMetrics_invariant[OF um] by simp
qed

lemma generatorCount_renderPage:
  "generatorCount (renderPage p t s) = min (count s - rowsPerPage s * p) (rowsPerPage s)"
  by (cases t) (simp_all add: renderPage_def setSlot_def Let_def)

subsection \<open>Recording a measured height\<close>

text \<open>
  Claim C6. In a list that is not \<open>fixedHeight\<close>, \<open>generatePage\<close> records the
  measured height \<open>h\<close> of page \<open>p\<close> as its last step, against the metrics \<open>m\<close>
  that its first two blocks leave, and it returns exactly when they do. Recording is
  a no-op (the list stays \<open>m\<close>, so the height cache and \<open>portSize\<close> stay) when
  \<open>h \<le> 0\<close> or \<open>h\<close> is the height known for \<open>p\<close>; otherwise it stores \<open>h\<close> for
  \<open>p\<close> and changes \<open>portSize\<close> by exactly \<open>h\<close> minus the height known for \<open>p\<close>.
  Recording changes no other page's height, nor the page count, the default page
  height or the row height (nothing is recomputed), and for \<open>p\<close> within
  \<open>[0, pageCount - 1]\<close> it preserves the invariant that \<open>portSize\<close> is the sum of
  \<open>getPageHeight\<close> over pages \<open>0..pageCount-1\<close>.

  The metrics \<open>m\<close> are those of the list before the call when its row height is
  already known or \<open>h\<close> is not positive. When the row height is still unset and
  \<open>h\<close> is positive they are the ones the row-height inference leaves (it fails
  only for a page of no rows or \<open>rowsPerPage = 0\<close>): the same height cache, the row
  height \<open>h\<close> divided by the rows of the page, rounded down, the default page height
  and page count recomputed from it, and \<open>portSize\<close> the sum of the page heights.
\<close>

theorem generatePage_records_measurement:
  assumes "\<not> fixedHeight s"
  shows
   "(inferRowHeight d (renderedHeight d p) (generatorCount (renderPage p t s)) (renderPage p t s) = None
       \<longrightarrow> generatePage d p t s = None)
    \<and> (\<forall>m. inferRowHeight d (renderedHeight d p) (generatorCount (renderPage p t s)) (renderPage p t s)
              = Some m \<longrightarrow>
         (\<exists>s'. generatePage d p t s = Some s'
            \<and> (if renderedHeight d p \<le> 0 \<or> renderedHeight d p = getPageHeight m p
               then s' = m
               else pageHeights s' = (pageHeights m)(p \<mapsto> renderedHeight d p)
                  \<and> getPageHeight s' p = renderedHeight d p
                  \<and> portSize s' = portSize m + (renderedHeight d p - getPageHeight m p))
            \<and> (\<forall>q. q \<noteq> p \<longrightarrow> getPageHeight s' q = getPageHeight m q)
            \<and> pageCount s' = pageCount m \<and> defaultPageHeight s' = defaultPageHeight m
            \<and> rowHeight s' = rowHeight m
            \<and> (0 \<le> p \<and> p < pageCount m
                 \<and> portSize m = (\<Sum>q = 0..<pageCount m. getPageHeight m q)
                 \<longrightarrow> portSize s' = (\<Sum>q = 0..<pageCount s'. getPageHeight s' q))))
    \<and> (rowHeight s \<noteq> 0 \<or> renderedHeight d p \<le> 0 \<longrightarrow>
         (\<exists>m. inferRowHeight d (renderedHeight d p) (generatorCount (renderPage p t s)) (renderPage p t s)
                = Some m
            \<and> pageHeights m = pageHeights s \<and> portSize m = portSize s
            \<and> pageCount m = pageCount s \<and> defaultPageHeight m = defaultPageHeight s
            \<and> rowHeight m = rowHeight s \<and> getPageHeight m p = getPageHeight s p))
    \<and> (rowHeight s = 0 \<and> 0 < renderedHeight d p \<longrightarrow>
         (inferRowHeight d (renderedHeight d p) (generatorCount (renderPage p t s)) (renderPage p t s) = None
            \<longleftrightarrow> min (count s - rowsPerPage s * p) (rowsPerPage s) = 0 \<or> rowsPerPage s = 0)
         \<and> (\<forall>m. inferRowHeight d (renderedHeight d p) (generatorCount (renderPage p t s)) (renderPage p t s)
                  = Some m \<longrightarrow>
               pageHeights m = pageHeights s
               \<and> rowHeight m = renderedHeight d p div min (count s - rowsPerPage s * p) (rowsPerPage s)
               \<and> defaultPageHeight m = rowsPerPage s * (if rowHeight m \<noteq> 0 then rowHeight m else 100)
               \<and> pageCount m = - ((- count s) div rowsPerPage s)
               \<and> portSize m = (\<Sum>q = 0..<pageCount m. getPageHeight m q)))"
proof -
  define s3 where "s3 = renderPage p t s"
  define h where "h = renderedHeight d p"
  define I where "I = inferRowHeight d h (generatorCount s3) s3"
  note f3 = renderPage_frame[of p t s, folded s3_def]
  have gc: "generatorCount s3 = min (count s - rowsPerPage s * p) (rowsPerPage s)"
    by (simp add: s3_def generatorCount_renderPage)
  have gh3: "getPageHeight s3 q = getPageHeight s q" for q
    using f3 by (intro getPageHeight_cong) simp_all
  have gen: "generatePage d p t s
      = (case I of None \<Rightarrow> None
         | Some m \<Rightarrow> Some (if \<not> fixedHeight m then recordPageHeight p h m else m))"
    unfolding generatePage_def Let_def s3_def h_def I_def by (rule refl)
  have none: "generatePage d p t s = None" if "I = None"
    using that by (simp add: gen)
  have some: "\<exists>s'. generatePage d p t s = Some s'
            \<and> (if h \<le> 0 \<or> h = getPageHeight m p
               then s' = m
               else pageHeights s' = (pageHeights m)(p \<mapsto> h)
                  \<and> getPageHeight s' p = h
                  \<and> portSize s' = portSize m + (h - getPageHeight m p))
            \<and> (\<forall>q. q \<noteq> p \<longrightarrow> getPageHeight s' q = getPageHeight m q)
            \<and> pageCount s' = pageCount m \<and> defaultPageHeight s' = defaultPageHeight m
            \<and> rowHeight s' = rowHeight m
            \<and> (0 \<le> p \<and> p < pageCount m
                 \<and> portSize m = (\<Sum>q = 0..<pageCount m. getPageHeight m q)
                 \<longrightarrow> portSize s' = (\<Sum>q = 0..<pageCount s'. getPageHeight s' q))"
    if m: "I = Some m" for m
  proof -
    have "\<not> fixedHeight m"
      using inferRowHeight_frame[OF m[unfolded I_def]] f3 assms by simp
    then have g: "generatePage d p t s = Some (recordPageHeight p h m)"
      by (simp add: gen m)
    have rec: "if h \<le> 0 \<or> h = getPageHeight m p
               then recordPageHeight p h m = m
               else pageHeights (recordPageHeight p h m) = (pageHeights m)(p \<mapsto> h)
                  \<and> getPageHeight (recordPageHeight p h m) p = h
                  \<and> portSize (recordPageHeight p h m) = portSize m + (h - getPageHeight m p)"
    proof (cases "h \<le> 0 \<or> h = getPageHeight m p")
      case True
      then show ?thesis using recordPageHeight_noop[of h m p] by simp
    next
      case False
      then have "0 < h" "h \<noteq> getPageHeight m p" by simp_all
      from recordPageHeight_store[OF this, of p] False show ?thesis by simp
    qed
    have inv: "portSize (recordPageHeight p h m)
        = (\<Sum>q = 0..<pageCount (recordPageHeight p h m). getPageHeight (recordPageHeight p h m) q)"
      if "0 \<le> p" "p < pageCount m" "portSize m = (\<Sum>q = 0..<pageCount m. getPageHeight m q)"
      using that by (rule recordPageHeight_invariant)
    show ?thesis
      using g rec inv recordPageHeight_others[of _ p h m] recordPageHeight_metrics[of p h m]
      by auto
  qed
  have known: "\<exists>m. I = Some m
            \<and> pageHeights m = pageHeights s \<and> portSize m = portSize s
            \<and> pageCount m = pageCount s \<and> defaultPageHeight m = defaultPageHeight s
            \<and> rowHeight m = rowHeight s \<and> getPageHeight m p = getPageHeight s p"
    if "rowHeight s \<noteq> 0 \<or> h \<le> 0"
  proof -
    have "I = Some s3" unfolding I_def using that f3 by (intro inferRowHeight_known) simp
    then show ?thesis using f3 gh3 by simp
  qed
  have unset: "(I = None \<longleftrightarrow> min (count s - rowsPerPage s * p) (rowsPerPage s) = 0 \<or> rowsPerPage s = 0)
         \<and> (\<forall>m. I = Some m \<longrightarrow>
               pageHeights m = pageHeights s
               \<and> rowHeight m = h div min (count s - rowsPerPage s * p) (rowsPerPage s)
               \<and> defaultPageHeight m = rowsPerPage s * (if rowHeight m \<noteq> 0 then rowHeight m else 100)
               \<and> pageCount m = - ((- count s) div rowsPerPage s)
               \<and> portSize m = (\<Sum>q = 0..<pageCount m. getPageHeight m q))"
    if u: "rowHeight s = 0 \<and> 0 < h"
  proof -
    have r3: "rowHeight s3 = 0" "0 < h" using u f3 by simp_all
    show ?thesis
      using inferRowHeight_unset(1)[OF r3, of d "generatorCount s3"]
        inferRowHeight_unset(2)[OF r3, of d "generatorCount s3"] f3
      by (auto simp: I_def gc)
  qed
  show ?thesis
    using none some known unset unfolding I_def s3_def h_def by blast
qed

text \<open>
  The first positive measurement on the example list (1000 pixels for page 0, whose
  height was estimated at 5000): the row-height inference recomputes the metrics,
  \<open>portSize\<close> goes from 15000 to 3000, and recording then finds the height of page
  0 already at 1000 and stores nothing.
\<close>

lemma first_measurement_infers_row_height:
  "\<not> fixedHeight (exampleList False)
   \<and> renderedHeight exampleDom 0 = 1000
   \<and> getPageHeight (exampleList False) 0 = 5000
   \<and> portSize (exampleList False) = 15000
   \<and> map_option (\<lambda>s. (rowHeight s, defaultPageHeight s, pageHeights s 0, portSize s))
        (generatePage exampleDom 0 Page0 (exampleList False))
       = Some (20, 1000, None, 3000)"
  by code_simp

text \<open>
  The theorem of C6 on the measured list (page 1 measured at 1200 is stored and
  \<open>portSize\<close> grows from 3000 to 3200) and on the example list, whose row height is
  unset: a page measured at 1010 sets the row height to 20 and the page heights to
  1000, and is then stored, \<open>portSize\<close> ending at 3010.
\<close>

theorem generatePage_records_measurement_witness:
  "\<not> fixedHeight measuredList \<and> rowHeight measuredList = 20
   \<and> renderedHeight tallDom 1 = 1200 \<and> getPageHeight measuredList 1 = 1000
   \<and> portSize measuredList = 3000
   \<and> map_option (\<lambda>s. (pageHeights s 1, portSize s)) (generatePage tallDom 1 Page1 measuredList)
       = Some (Some 1200, 3200)
   \<and> \<not> fixedHeight (exampleList False) \<and> rowHeight (exampleList False) = 0
   \<and> renderedHeight oddDom 0 = 1010
   \<and> map_option (\<lambda>s. (rowHeight s, defaultPageHeight s, pageCount s, pageHeights s 0, portSize s))
        (generatePage oddDom 0 Page0 (exampleList False)) = Some (20, 1000, 3, Some 1010, 3010)"
proof -
  have a: "\<not> fixedHeight measuredList" "rowHeight measuredList \<noteq> 0"
      "rowHeight measuredList = 20" "portSize measuredList = 3000"
      "getPageHeight measuredList q = 1000" "pageHeights measuredList q = None" for q
    by (simp_all add: measuredList_def getPageHeight_def)
  have b: "renderedHeight tallDom 1 = 1200" by (simp add: tallDom_def)
  have c: "\<not> fixedHeight (exampleList False)" "rowHeight (exampleList False) = 0"
      "renderedHeight oddDom 0 = 1010"
    by (simp_all add: exampleList_def oddDom_def)
  note T = generatePage_records_measurement[OF a(1), of tallDom 1 Page1]
  from T a(2) obtain m where m:
      "inferRowHeight tallDom (renderedHeight tallDom 1)
         (generatorCount (renderPage 1 Page1 measuredList)) (renderPage 1 Page1 measuredList) = Some m"
      "pageHeights m = pageHeights measuredList" "portSize m = portSize measuredList"
      "getPageHeight m 1 = getPageHeight measuredList 1"
    by blast
  from T m(1) obtain s' where s': "generatePage tallDom 1 Page1 measuredList = Some s'"
      "if renderedHeight tallDom 1 \<le> 0 \<or> renderedHeight tallDom 1 = getPageHeight m 1
       then s' = m
       else pageHeights s' = (pageHeights m)(1 \<mapsto> renderedHeight tallDom 1)
          \<and> getPageHeight s' 1 = renderedHeight tallDom 1
          \<and> portSize s' = portSize m + (renderedHeight tallDom 1 - getPageHeight m 1)"
    by blast
  have k: "map_option (\<lambda>s. (pageHeights s 1, portSize s)) (generatePage tallDom 1 Page1 measuredList)
       = Some (Some 1200, 3200)"
    using s' m a b by simp
  have u: "map_option (\<lambda>s. (rowHeight s, defaultPageHeight s, pageCount s, pageHeights s 0, portSize s))
        (generatePage oddDom 0 Page0 (exampleList False)) = Some (20, 1000, 3, Some 1010, 3010)"
    by code_simp
  show ?thesis using a b c k u by simp
qed

section \<open>Properties of the swipe gestures\<close>

lemma swipingList_eval:
  "swipingList =
     \<lparr>enableSwipe = True, persistSwipeableItem = False, swipeableControls = 1,
      swipeIndex = Some 3, swipeDirection = Some 1, persistentItemVisisble = False,
      persistentItemOrigin = Some Left, swipeComplete = False, completeSwipeTimeout = None,
      flicked = False, showing = True, panelTop = 40, translateX = - 100, panelWidth = 100,
      panelHeight = 20, transition = NoTransition,
      emitted = [OnSetupSwipeItem (Some 3) (Some 1)], timers = [], nextTimer = 1\<rparr>"
  by code_simp

lemma persistentList_eval:
  "persistentList =
     \<lparr>enableSwipe = True, persistSwipeableItem = True, swipeableControls = 1,
      swipeIndex = Some 3, swipeDirection = None, persistentItemVisisble = True,
      persistentItemOrigin = Some Left, swipeComplete = True, completeSwipeTimeout = None,
      flicked = False, showing = True, panelTop = 40, translateX = 0, panelWidth = 100,
      panelHeight = 20, transition = Seconds 0,
      emitted = [OnSetupSwipeItem (Some 3) (Some 1)], timers = [], nextTimer = 2\<rparr>"
  by code_simp

subsection \<open>The completion timer\<close>

text \<open>
  Claim C1 against the code. \<open>transitionComplete\<close> stores the id of a new timeout
  without clearing the one it already holds. After a completed swipe has armed timer
  1, a vertical drag (which \<open>dragstart\<close> ignores before it reaches the pending timer)
  ends in \<open>dragfinish\<close>, the panel backs out, and the end of that transition arms
  timer 2 while timer 1 is pending: two timeouts are live and only the second is
  still known to the list. A later drag-start then cancels timer 2 and leaves timer 1
  pending. Two transition ends in a row do the same.
\<close>

theorem second_transition_end_leaves_two_timers:
  "map fst (timers (run exampleRows
       [DragFinish (gestureOn 3 1 60), TransitionEnd panelTransitionEnd] swipingList)) = [1]
   \<and> map fst (timers (run exampleRows
       [DragFinish (gestureOn 3 1 60), TransitionEnd panelTransitionEnd,
        DragStart (verticalGesture 3), DragFinish (verticalGesture 3),
        TransitionEnd panelTransitionEnd] swipingList)) = [1, 2]
   \<and> completeSwipeTimeout (run exampleRows
       [DragFinish (gestureOn 3 1 60), TransitionEnd panelTransitionEnd,
        DragStart (verticalGesture 3), DragFinish (verticalGesture 3),
        TransitionEnd panelTransitionEnd] swipingList) = Some 2
   \<and> map fst (timers (run exampleRows
       [DragFinish (gestureOn 3 1 60), TransitionEnd panelTransitionEnd,
        DragStart (verticalGesture 3), DragFinish (verticalGesture 3),
        TransitionEnd panelTransitionEnd, DragStart (gestureOn 3 1 0)] swipingList)) = [1]
   \<and> map fst (timers (transitionComplete panelTransitionEnd
        (transitionComplete panelTransitionEnd swipingList))) = [1, 2]"
  by code_simp

subsection \<open>What the handlers emit\<close>

text \<open>
  Only \<open>startSwipe\<close> (\<open>onSetupSwipeItem\<close>) and \<open>completeSwipe\<close>
  (\<open>onSwipeComplete\<close>) bubble an event; no input ever makes the list emit
  \<open>onSwipe\<close>.
\<close>

lemma completeSwipe_emits:
  "set (emitted (snd (completeSwipe e s))) \<subseteq> set (emitted s) \<union> range (\<lambda>(i, x). OnSwipeComplete i x)"
  by (auto simp: completeSwipe_def clearTimeout_def setSwipeDirection_def
      resetSwipeableTransitionTime_def Let_def split: option.splits)

lemma dragstart_emits:
  "set (emitted (dragstart rs e s))
     \<subseteq> set (emitted s) \<union> range (\<lambda>(i, x). OnSwipeComplete i x) \<union> range (\<lambda>(i, x). OnSetupSwipeItem i x)"
proof (cases "\<not> hasSwipeableComponents s \<or> vertical e")
  case True
  then show ?thesis by (auto simp: dragstart_def)
next
  case False
  define s1 where "s1 = setSwipeDirection (xDirection e) s"
  define es where "es = (if timeoutSet s1 then completeSwipe e s1 else (e, s1))"
  define s4 where "s4 = setSwipeComplete False (setFlicked False (snd es))"
  define s5 where "s5 = (if swipeIndexChanged (index (fst es)) s4
                  then setSwipeIndex (index (fst es)) (clearSwipeables s4) else s4)"
  have eq: "dragstart rs e s = (if \<not> persistentItemVisisble s5 then startSwipe rs (fst es) s5 else s5)"
    using False
    by (simp add: dragstart_def Let_def s1_def es_def s4_def s5_def split_beta)
  have a1: "emitted s1 = emitted s" by (simp add: s1_def setSwipeDirection_def)
  have a2: "set (emitted (snd es)) \<subseteq> set (emitted s1) \<union> range (\<lambda>(i, x). OnSwipeComplete i x)"
    using completeSwipe_emits[of e s1] by (auto simp: es_def)
  have a4: "emitted s4 = emitted (snd es)"
    by (simp add: s4_def setSwipeComplete_def setFlicked_def)
  have a5: "emitted s5 = emitted s4"
    by (simp add: s5_def setSwipeIndex_def clearSwipeables_def setPersistSwipeableItem_def
        split: option.splits)
  have a6: "set (emitted (startSwipe rs (fst es) s5))
      \<subseteq> set (emitted s5) \<union> range (\<lambda>(i, x). OnSetupSwipeItem i x)"
    by (auto simp: startSwipe_def positionSwipeableContainer_def setPersistentItemOrigin_def
        Let_def split: option.splits)
  show ?thesis using a1 a2 a4 a5 a6 by (auto simp: eq)
qed

lemma quiet_handlers:
  "emitted (drag e s) = emitted s" "emitted (flick e s) = emitted s"
  "emitted (dragfinish e s) = emitted s" "emitted (transitionComplete e s) = emitted s"
  by (simp_all add: drag_def dragPersistentItem_def dragSwipeableComponents_def Let_def
      flick_def setFlicked_def flickPersistentItem_def bounceItem_def slideAwayItem_def
      swipeItem_def setPersistSwipeableItem_def swipe_def setSwipeComplete_def
      dragfinish_def dragFinishPersistentItem_def backOutSwipe_def
      transitionComplete_def setTimeout_def)

lemma timerFires_emits:
  "set (emitted (timerFires n s)) \<subseteq> set (emitted s) \<union> range (\<lambda>(i, x). OnSwipeComplete i x)"
  using completeSwipe_emits[of _ "s\<lparr>timers := filter (\<lambda>t. fst t \<noteq> n) (timers s)\<rparr>"]
  by (auto simp: timerFires_def split: option.splits)

lemma handle_never_emits_onSwipe:
  assumes "OnSwipe \<notin> set (emitted s)"
  shows "OnSwipe \<notin> set (emitted (handle rs i s))"
proof (cases i)
  case (DragStart e)
  then show ?thesis using assms dragstart_emits[of rs e s] by auto
next
  case (TimerFires n)
  then show ?thesis using assms timerFires_emits[of n s] by auto
qed (simp_all add: quiet_handlers assms)

lemma run_never_emits_onSwipe:
  "OnSwipe \<notin> set (emitted s) \<Longrightarrow> OnSwipe \<notin> set (emitted (run rs ins s))"
  by (induction ins arbitrary: s) (simp_all add: handle_never_emits_onSwipe)

subsection \<open>Ending a drag\<close>

text \<open>
  Every drag-start that the handler does not ignore leaves the \<open>flicked\<close> and
  \<open>swipeComplete\<close> flags false.
\<close>

lemma dragstart_clears_flags:
  assumes "hasSwipeableComponents s" and "\<not> vertical e"
  shows "\<not> flicked (dragstart rs e s) \<and> \<not> swipeComplete (dragstart rs e s)"
proof -
  define s1 where "s1 = setSwipeDirection (xDirection e) s"
  define es where "es = (if timeoutSet s1 then completeSwipe e s1 else (e, s1))"
  define s4 where "s4 = setSwipeComplete False (setFlicked False (snd es))"
  define s5 where "s5 = (if swipeIndexChanged (index (fst es)) s4
                  then setSwipeIndex (index (fst es)) (clearSwipeables s4) else s4)"
  have eq: "dragstart rs e s = (if \<not> persistentItemVisisble s5 then startSwipe rs (fst es) s5 else s5)"
    using assms
    by (simp add: dragstart_def Let_def s1_def es_def s4_def s5_def split_beta)
  have a4: "\<not> flicked s4 \<and> \<not> swipeComplete s4"
    by (simp add: s4_def setSwipeComplete_def setFlicked_def)
  have a5: "flicked s5 = flicked s4 \<and> swipeComplete s5 = swipeComplete s4"
    by (simp add: s5_def setSwipeIndex_def clearSwipeables_def setPersistSwipeableItem_def
        split: option.splits)
  have a6: "flicked (startSwipe rs (fst es) s5) = flicked s5
      \<and> swipeComplete (startSwipe rs (fst es) s5) = swipeComplete s5"
    by (simp add: startSwipe_def positionSwipeableContainer_def setPersistentItemOrigin_def
        Let_def split: option.splits)
  show ?thesis using a4 a5 a6 by (simp add: eq)
qed

lemma calcPercentageDragged_num:
  "panelWidth s \<noteq> 0 \<Longrightarrow>
   js_gt (calcPercentageDragged s x) t \<longleftrightarrow> t < \<bar>of_int x / of_int (panelWidth s)\<bar>"
  by (simp add: calcPercentageDragged_def js_gt_def)

text \<open>
  Claim C3, as the code has it. When \<open>dragfinish\<close> fires with swiping enabled, no
  persistent item visible and no flick earlier in the gesture (the \<open>flicked\<close> flag,
  which every handled drag-start clears, is false), on a panel of nonzero
  width: if \<open>|dx| / panelWidth\<close> exceeds \<open>0.2\<close> (so at \<open>0.21\<close>) the
  swipe-complete flag is set and the panel moves to position \<open>0\<close> at the fast speed;
  otherwise (so at \<open>0.19\<close>) the panel moves back off-screen, one width on the side
  of the swipe direction, in 0.1 seconds, and the swipe-complete flag is left as it
  was. In both cases no event is emitted.
\<close>

theorem dragfinish_first_swipe:
  assumes "enableSwipe s" and "\<not> persistentItemVisisble s" and "\<not> flicked s"
    and "panelWidth s \<noteq> 0"
  shows "(2 / 10 < \<bar>of_int (dx e) / of_int (panelWidth s) :: rat\<bar> \<longrightarrow>
            dragfinish e s
              = s\<lparr>swipeComplete := True, transition := Seconds fastSwipeSpeed, translateX := 0\<rparr>)
       \<and> (\<bar>of_int (dx e) / of_int (panelWidth s) :: rat\<bar> \<le> 2 / 10 \<longrightarrow>
            dragfinish e s
              = s\<lparr>transition := Seconds (1 / 10),
                  translateX := (if swipeDirection s = Some 1 then - panelWidth s else panelWidth s)\<rparr>)
       \<and> emitted (dragfinish e s) = emitted s"
  using assms
  by (auto simp: dragfinish_def wasFlicked_def calcPercentageDragged_num percentageDraggedThreshold_def
      swipe_def swipeItem_def setSwipeComplete_def backOutSwipe_def Let_def)

text \<open>
  Claim C3 as stated fails at \<open>|dx| / panelWidth = 0.21\<close>: the swipe is completed at
  the fast speed, but no \<open>onSwipe\<close> event is emitted (the list of emitted events is
  what it was before).
\<close>

theorem dragfinish_first_swipe_counterexample:
  "enableSwipe swipingList \<and> \<not> persistentItemVisisble swipingList \<and> \<not> flicked swipingList
   \<and> calcPercentageDragged swipingList (dx (gestureOn 3 1 21)) = Num (21 / 100)
   \<and> swipeComplete (dragfinish (gestureOn 3 1 21) swipingList)
   \<and> transition (dragfinish (gestureOn 3 1 21) swipingList) = Seconds fastSwipeSpeed
   \<and> emitted (dragfinish (gestureOn 3 1 21) swipingList) = [OnSetupSwipeItem (Some 3) (Some 1)]
   \<and> OnSwipe \<notin> set (emitted (dragfinish (gestureOn 3 1 21) swipingList))"
  by code_simp

text \<open>The theorem of C3 at \<open>dx = 21\<close> and \<open>dx = 19\<close> on a panel 100 wide.\<close>

theorem dragfinish_first_swipe_witness:
  "enableSwipe swipingList \<and> \<not> persistentItemVisisble swipingList \<and> \<not> flicked swipingList
   \<and> panelWidth swipingList = 100
   \<and> dragfinish (gestureOn 3 1 21) swipingList
       = swipingList\<lparr>swipeComplete := True, transition := Seconds (1 / 10), translateX := 0\<rparr>
   \<and> dragfinish (gestureOn 3 1 19) swipingList
       = swipingList\<lparr>transition := Seconds (1 / 10), translateX := - 100\<rparr>
   \<and> \<not> swipeComplete (dragfinish (gestureOn 3 1 19) swipingList)"
proof -
  have a: "enableSwipe swipingList" "\<not> persistentItemVisisble swipingList"
      "\<not> flicked swipingList" "panelWidth swipingList \<noteq> 0" "panelWidth swipingList = 100"
      "swipeDirection swipingList = Some 1" "\<not> swipeComplete swipingList"
    by (simp_all add: swipingList_eval)
  have d: "dx (gestureOn 3 1 21) = 21" "dx (gestureOn 3 1 19) = 19"
    by (simp_all add: gestureOn_def)
  show ?thesis
    using dragfinish_first_swipe[OF a(1-4), of "gestureOn 3 1 21"]
      dragfinish_first_swipe[OF a(1-4), of "gestureOn 3 1 19"] a d
    by (simp add: fastSwipeSpeed_def)
qed

subsection \<open>A panel left open\<close>

lemma slideAwayItem_effect:
  "\<not> persistentItemVisisble (slideAwayItem s) \<and> \<not> persistSwipeableItem (slideAwayItem s)
   \<and> translateX (slideAwayItem s)
       = (if persistentItemOrigin s = Some Right then panelWidth s else - panelWidth s)"
  by (simp add: slideAwayItem_def setPersistSwipeableItem_def Let_def)

lemma bounceItem_effect:
  "persistentItemVisisble (bounceItem s) = persistentItemVisisble s
   \<and> persistSwipeableItem (bounceItem s) = persistSwipeableItem s
   \<and> translateX (bounceItem s) = 0"
  by (simp add: bounceItem_def swipeItem_def)

text \<open>
  Claim C4, as the code has it. For a flick whose horizontal velocity dominates,
  arriving while a persistent panel is visible, the outcome depends only on the flick
  direction and the panel's origin side: a flick toward the origin side (rightward
  with origin \<open>right\<close>, leftward with origin \<open>left\<close>) slides the panel fully away,
  one width to its origin side, and a flick away from the origin side bounces it back
  to its open position \<open>0\<close>.
\<close>

theorem flick_persistent_item:
  assumes "enableSwipe s" and "persistentItemVisisble s"
    and "\<bar>yVelocity e\<bar> \<le> \<bar>xVelocity e\<bar>"
  shows "(0 < xVelocity e \<and> persistentItemOrigin s = Some Right
          \<or> xVelocity e < 0 \<and> persistentItemOrigin s = Some Left \<longrightarrow>
            flick e s = slideAwayItem (s\<lparr>flicked := True\<rparr>)
            \<and> \<not> persistentItemVisisble (flick e s)
            \<and> translateX (flick e s)
                = (if persistentItemOrigin s = Some Right then panelWidth s else - panelWidth s))
       \<and> (0 < xVelocity e \<and> persistentItemOrigin s = Some Left
          \<or> xVelocity e < 0 \<and> persistentItemOrigin s = Some Right \<longrightarrow>
            flick e s = bounceItem (s\<lparr>flicked := True\<rparr>)
            \<and> persistentItemVisisble (flick e s)
            \<and> translateX (flick e s) = 0)"
proof -
  have f: "flick e s = flickPersistentItem e (s\<lparr>flicked := True\<rparr>)"
    using assms by (simp add: flick_def setFlicked_def Let_def)
  have away: "flick e s = slideAwayItem (s\<lparr>flicked := True\<rparr>)"
    if "0 < xVelocity e \<and> persistentItemOrigin s = Some Right
          \<or> xVelocity e < 0 \<and> persistentItemOrigin s = Some Left"
    using that by (auto simp: f flickPersistentItem_def)
  have stay: "flick e s = bounceItem (s\<lparr>flicked := True\<rparr>)"
    if "0 < xVelocity e \<and> persistentItemOrigin s = Some Left
          \<or> xVelocity e < 0 \<and> persistentItemOrigin s = Some Right"
    using that by (auto simp: f flickPersistentItem_def)
  show ?thesis
    using away stay slideAwayItem_effect[of "s\<lparr>flicked := True\<rparr>"]
      bounceItem_effect[of "s\<lparr>flicked := True\<rparr>"] assms(2)
    by auto
qed

text \<open>
  Claim C4 as stated fails on the panel that came from the left: the leftward flick,
  toward the origin side, does not bounce it back but slides it away, and the
  rightward flick, away from the origin side, leaves it open.
\<close>

theorem flick_persistent_item_counterexample:
  "enableSwipe persistentList \<and> persistentItemVisisble persistentList
   \<and> persistentItemOrigin persistentList = Some Left
   \<and> xVelocity (flickOn 3 (- 1)) < 0
   \<and> \<bar>yVelocity (flickOn 3 (- 1))\<bar> \<le> \<bar>xVelocity (flickOn 3 (- 1))\<bar>
   \<and> \<not> persistentItemVisisble (flick (flickOn 3 (- 1)) persistentList)
   \<and> translateX (flick (flickOn 3 (- 1)) persistentList) = - 100
   \<and> 0 < xVelocity (flickOn 3 1)
   \<and> persistentItemVisisble (flick (flickOn 3 1) persistentList)
   \<and> translateX (flick (flickOn 3 1) persistentList) = 0"
  by code_simp

text \<open>The theorem of C4 for both flicks on that panel.\<close>

theorem flick_persistent_item_witness:
  "enableSwipe persistentList \<and> persistentItemVisisble persistentList
   \<and> persistentItemOrigin persistentList = Some Left
   \<and> xVelocity (flickOn 3 (- 1)) = - 1 \<and> yVelocity (flickOn 3 (- 1)) = 0
   \<and> flick (flickOn 3 (- 1)) persistentList = slideAwayItem (persistentList\<lparr>flicked := True\<rparr>)
   \<and> translateX (flick (flickOn 3 (- 1)) persistentList) = - 100
   \<and> xVelocity (flickOn 3 1) = 1 \<and> yVelocity (flickOn 3 1) = 0
   \<and> flick (flickOn 3 1) persistentList = bounceItem (persistentList\<lparr>flicked := True\<rparr>)
   \<and> translateX (flick (flickOn 3 1) persistentList) = 0"
proof -
  have a: "enableSwipe persistentList" "persistentItemVisisble persistentList"
      "persistentItemOrigin persistentList = Some Left" "panelWidth persistentList = 100"
    by (simp_all add: persistentList_eval)
  have v: "xVelocity (flickOn 3 v) = v" "yVelocity (flickOn 3 v) = 0" for v
    by (simp_all add: flickOn_def gestureOn_def)
  have h: "\<bar>yVelocity (flickOn 3 v)\<bar> \<le> \<bar>xVelocity (flickOn 3 v)\<bar>" for v
    by (simp add: v)
  show ?thesis
    using flick_persistent_item[OF a(1,2) h, of "- 1"] flick_persistent_item[OF a(1,2) h, of 1] a v
    by auto
qed

text \<open>
  Claim C5, as the code has it. For a \<open>dragfinish\<close> arriving while a persistent
  panel (of nonzero width) is visible, with no flick in the gesture (the
  \<open>flicked\<close> flag, which every handled drag-start clears, is false), the panel slides
  away exactly when the net horizontal delta points to the origin side (\<open>dx > 0\<close>
  with origin \<open>right\<close>, \<open>dx < 0\<close> with origin \<open>left\<close>) and
  \<open>|dx| / panelWidth\<close> exceeds \<open>0.2\<close>; in every other case it bounces back to its
  open position.
\<close>

theorem dragfinish_persistent_item:
  assumes "enableSwipe s" and "\<not> flicked s" and "persistentItemVisisble s"
    and "panelWidth s \<noteq> 0"
  shows "((0 < dx e \<and> persistentItemOrigin s = Some Right
            \<or> dx e < 0 \<and> persistentItemOrigin s = Some Left)
          \<and> 2 / 10 < \<bar>of_int (dx e) / of_int (panelWidth s) :: rat\<bar> \<longrightarrow>
            dragfinish e s = slideAwayItem s \<and> \<not> persistentItemVisisble (dragfinish e s))
       \<and> (\<not> ((0 < dx e \<and> persistentItemOrigin s = Some Right
                \<or> dx e < 0 \<and> persistentItemOrigin s = Some Left)
              \<and> 2 / 10 < \<bar>of_int (dx e) / of_int (panelWidth s) :: rat\<bar>) \<longrightarrow>
            dragfinish e s = bounceItem s \<and> persistentItemVisisble (dragfinish e s)
            \<and> translateX (dragfinish e s) = 0)"
proof -
  have f: "dragfinish e s = dragFinishPersistentItem e s"
    using assms by (simp add: dragfinish_def wasFlicked_def)
  have away: "dragfinish e s = slideAwayItem s"
    if "(0 < dx e \<and> persistentItemOrigin s = Some Right
            \<or> dx e < 0 \<and> persistentItemOrigin s = Some Left)
          \<and> 2 / 10 < \<bar>of_int (dx e) / of_int (panelWidth s) :: rat\<bar>"
    using that assms(4)
    by (auto simp: f dragFinishPersistentItem_def Let_def calcPercentageDragged_num)
  have stay: "dragfinish e s = bounceItem s"
    if "\<not> ((0 < dx e \<and> persistentItemOrigin s = Some Right
                \<or> dx e < 0 \<and> persistentItemOrigin s = Some Left)
              \<and> 2 / 10 < \<bar>of_int (dx e) / of_int (panelWidth s) :: rat\<bar>)"
    using that assms(4)
    by (auto simp: f dragFinishPersistentItem_def Let_def calcPercentageDragged_num)
  show ?thesis
    using away stay slideAwayItem_effect[of s] bounceItem_effect[of s] assms(3)
    by auto
qed

text \<open>
  Claim C5 as stated fails on the panel that came from the left: a drag of half its
  width to the right, the direction opposite its origin, bounces it back, and the
  same drag to the left slides it away.
\<close>

theorem dragfinish_persistent_item_counterexample:
  "enableSwipe persistentList \<and> \<not> flicked persistentList \<and> persistentItemVisisble persistentList
   \<and> persistentItemOrigin persistentList = Some Left
   \<and> calcPercentageDragged persistentList 50 = Num (1 / 2)
   \<and> dx (gestureOn 3 1 50) = 50
   \<and> persistentItemVisisble (dragfinish (gestureOn 3 1 50) persistentList)
   \<and> translateX (dragfinish (gestureOn 3 1 50) persistentList) = 0
   \<and> dx (gestureOn 3 (- 1) (- 50)) = - 50
   \<and> \<not> persistentItemVisisble (dragfinish (gestureOn 3 (- 1) (- 50)) persistentList)
   \<and> translateX (dragfinish (gestureOn 3 (- 1) (- 50)) persistentList) = - 100"
  by code_simp

text \<open>
  The theorem of C5 on that panel: toward the origin past the threshold, toward the
  origin below it, away from the origin, and no movement.
\<close>

theorem dragfinish_persistent_item_witness:
  "enableSwipe persistentList \<and> \<not> flicked persistentList \<and> persistentItemVisisble persistentList
   \<and> panelWidth persistentList = 100 \<and> persistentItemOrigin persistentList = Some Left
   \<and> dragfinish (gestureOn 3 (- 1) (- 50)) persistentList = slideAwayItem persistentList
   \<and> dragfinish (gestureOn 3 (- 1) (- 19)) persistentList = bounceItem persistentList
   \<and> dragfinish (gestureOn 3 1 50) persistentList = bounceItem persistentList
   \<and> dragfinish (gestureOn 3 1 0) persistentList = bounceItem persistentList"
proof -
  have a: "enableSwipe persistentList" "\<not> flicked persistentList"
      "persistentItemVisisble persistentList" "panelWidth persistentList \<noteq> 0"
      "panelWidth persistentList = 100" "persistentItemOrigin persistentList = Some Left"
    by (simp_all add: persistentList_eval)
  have d: "dx (gestureOn 3 xd x) = x" for xd x
    by (simp add: gestureOn_def)
  show ?thesis
    using dragfinish_persistent_item[OF a(1-4), of "gestureOn 3 (- 1) (- 50)"]
      dragfinish_persistent_item[OF a(1-4), of "gestureOn 3 (- 1) (- 19)"]
      dragfinish_persistent_item[OF a(1-4), of "gestureOn 3 1 50"]
      dragfinish_persistent_item[OF a(1-4), of "gestureOn 3 1 0"] a d
    by simp
qed

subsection \<open>The persistence option\<close>

lemma settled_refl: "settled s s"
  by (simp add: settled_def)

lemma settled_trans: "settled a b \<Longrightarrow> settled b c \<Longrightarrow> settled a c"
  by (auto simp: settled_def)

lemma completeSwipe_settled: "settled s (snd (completeSwipe e s))"
  by (auto simp: settled_def completeSwipe_def clearTimeout_def setSwipeDirection_def
      resetSwipeableTransitionTime_def Let_def split: option.splits)

lemma clearSwipeables_settled: "settled s (clearSwipeables s)"
  by (simp add: settled_def clearSwipeables_def setPersistSwipeableItem_def)

lemma slideAwayItem_settled: "settled s (slideAwayItem s)"
  by (simp add: settled_def slideAwayItem_def setPersistSwipeableItem_def Let_def)

lemma bounceItem_settled: "settled s (bounceItem s)"
  by (simp add: settled_def bounceItem_def swipeItem_def)

lemma startSwipe_settled: "settled s (startSwipe rs e s)"
  by (simp add: settled_def startSwipe_def positionSwipeableContainer_def
      setPersistentItemOrigin_def Let_def split: option.splits)

lemma setSwipeIndex_settled: "settled s (setSwipeIndex i s)"
  by (simp add: settled_def setSwipeIndex_def split: option.splits)

lemma field_settled:
  "settled s (setSwipeDirection d s)" "settled s (setFlicked f s)" "settled s (setSwipeComplete c s)"
  by (simp_all add: settled_def setSwipeDirection_def setFlicked_def setSwipeComplete_def)

lemma dragstart_settled: "settled s (dragstart rs e s)"
proof (cases "\<not> hasSwipeableComponents s \<or> vertical e")
  case True
  then show ?thesis by (simp add: dragstart_def settled_refl)
next
  case False
  define s1 where "s1 = setSwipeDirection (xDirection e) s"
  define es where "es = (if timeoutSet s1 then completeSwipe e s1 else (e, s1))"
  define s4 where "s4 = setSwipeComplete False (setFlicked False (snd es))"
  define s5 where "s5 = (if swipeIndexChanged (index (fst es)) s4
                  then setSwipeIndex (index (fst es)) (clearSwipeables s4) else s4)"
  have eq: "dragstart rs e s = (if \<not> persistentItemVisisble s5 then startSwipe rs (fst es) s5 else s5)"
    using False
    by (simp add: dragstart_def Let_def s1_def es_def s4_def s5_def split_beta)
  have a1: "settled s s1" by (simp add: s1_def field_settled)
  have a2: "settled s1 (snd es)" by (simp add: es_def completeSwipe_settled settled_refl)
  have a4: "settled (snd es) s4"
    unfolding s4_def by (rule settled_trans[OF field_settled(2) field_settled(3)])
  have a5: "settled s4 s5"
    unfolding s5_def
    by (auto intro: settled_refl settled_trans[OF clearSwipeables_settled setSwipeIndex_settled])
  have a6: "settled s5 (dragstart rs e s)" by (simp add: eq settled_refl startSwipe_settled)
  show ?thesis
    by (rule settled_trans[OF settled_trans[OF settled_trans[OF settled_trans[OF a1 a2] a4] a5] a6])
qed

lemma drag_settled: "settled s (drag e s)"
  by (simp add: settled_def drag_def dragPersistentItem_def dragSwipeableComponents_def Let_def)

lemma swipe_settled: "settled s (swipe v s)"
  by (simp add: settled_def swipe_def swipeItem_def setSwipeComplete_def)

lemma flick_settled: "settled s (flick e s)"
proof -
  have "settled (setFlicked True s) (flickPersistentItem e (setFlicked True s))"
    by (simp add: flickPersistentItem_def slideAwayItem_settled bounceItem_settled settled_refl)
  then show ?thesis
    using settled_trans[OF field_settled(2)[of s True]] swipe_settled
    by (auto simp: flick_def Let_def settled_refl)
qed

lemma dragfinish_settled: "settled s (dragfinish e s)"
proof -
  have "settled s (dragFinishPersistentItem e s)"
    by (simp add: dragFinishPersistentItem_def Let_def slideAwayItem_settled bounceItem_settled)
  moreover have "settled s (backOutSwipe s)"
    by (simp add: settled_def backOutSwipe_def swipeItem_def Let_def)
  ultimately show ?thesis by (simp add: dragfinish_def settled_refl swipe_settled)
qed

lemma transitionComplete_settled: "settled s (transitionComplete e s)"
  by (simp add: settled_def transitionComplete_def setTimeout_def)

lemma timerFires_settled: "settled s (timerFires n s)"
proof (cases "map_of (timers s) n")
  case None
  then show ?thesis by (simp add: timerFires_def settled_refl)
next
  case (Some e)
  have "settled s (s\<lparr>timers := filter (\<lambda>t. fst t \<noteq> n) (timers s)\<rparr>)"
    by (simp add: settled_def)
  from settled_trans[OF this completeSwipe_settled] Some show ?thesis
    by (simp add: timerFires_def)
qed

lemma handle_settled: "settled s (handle rs i s)"
  by (cases i) (simp_all add: dragstart_settled drag_settled flick_settled dragfinish_settled
      transitionComplete_settled timerFires_settled)

lemma run_settled: "settled s (run rs ins s)"
proof (induction ins arbitrary: s)
  case Nil
  then show ?case by (simp add: settled_refl)
next
  case (Cons i ins)
  show ?case using settled_trans[OF handle_settled Cons.IH] by simp
qed

text \<open>
  Claim C10. \<open>slideAwayItem\<close> moves the panel one width off to its origin side,
  \<open>clearSwipeables\<close> hides it, and both clear the persistent-visible flag and set
  the published \<open>persistSwipeableItem\<close> option to false. With the option false,
  \<open>completeSwipe\<close> hides the panel and does not make it persistent; no handler and
  no timer turns the option back on, so after a dismissal no sequence of inputs makes
  the panel persistent again.
\<close>

theorem dismissal_turns_persistence_off:
  "\<not> persistentItemVisisble (slideAwayItem s) \<and> \<not> persistSwipeableItem (slideAwayItem s)
   \<and> translateX (slideAwayItem s)
       = (if persistentItemOrigin s = Some Right then panelWidth s else - panelWidth s)
   \<and> \<not> showing (clearSwipeables s) \<and> \<not> persistentItemVisisble (clearSwipeables s)
   \<and> \<not> persistSwipeableItem (clearSwipeables s)
   \<and> (\<not> persistSwipeableItem s \<longrightarrow>
        \<not> showing (snd (completeSwipe e s))
        \<and> persistentItemVisisble (snd (completeSwipe e s)) = persistentItemVisisble s)
   \<and> (\<not> persistSwipeableItem s \<longrightarrow> \<not> persistSwipeableItem (run rs ins s))
   \<and> (\<not> persistSwipeableItem s \<and> \<not> persistentItemVisisble s \<longrightarrow>
        \<not> persistentItemVisisble (run rs ins s))"
proof -
  have c: "\<not> showing (snd (completeSwipe e s))
        \<and> persistentItemVisisble (snd (completeSwipe e s)) = persistentItemVisisble s"
    if "\<not> persistSwipeableItem s"
    using that
    by (auto simp: completeSwipe_def clearTimeout_def setSwipeDirection_def
        resetSwipeableTransitionTime_def Let_def split: option.splits)
  have d: "\<not> showing (clearSwipeables s) \<and> \<not> persistentItemVisisble (clearSwipeables s)
      \<and> \<not> persistSwipeableItem (clearSwipeables s)"
    by (simp add: clearSwipeables_def setPersistSwipeableItem_def)
  show ?thesis
    using slideAwayItem_effect[of s] c d run_settled[of s rs ins]
    by (auto simp: settled_def)
qed

text \<open>
  The theorem of C10 on the open panel: it is slid away, and a whole further swipe
  (drag-start, drag-finish past the threshold, transition end, timer) ends with the
  panel hidden and not persistent.
\<close>

theorem dismissal_turns_persistence_off_witness:
  "persistSwipeableItem persistentList \<and> persistentItemVisisble persistentList
   \<and> \<not> persistSwipeableItem (slideAwayItem persistentList)
   \<and> \<not> persistentItemVisisble (slideAwayItem persistentList)
   \<and> \<not> persistentItemVisisble (run exampleRows
        [DragStart (gestureOn 3 1 0), DragFinish (gestureOn 3 1 60),
         TransitionEnd panelTransitionEnd, TimerFires 2] (slideAwayItem persistentList))
   \<and> \<not> showing (run exampleRows
        [DragStart (gestureOn 3 1 0), DragFinish (gestureOn 3 1 60),
         TransitionEnd panelTransitionEnd, TimerFires 2] (slideAwayItem persistentList))
   \<and> map fst (timers (run exampleRows
        [DragStart (gestureOn 3 1 0), DragFinish (gestureOn 3 1 60),
         TransitionEnd panelTransitionEnd] (slideAwayItem persistentList))) = [2]"
proof -
  have a: "persistSwipeableItem persistentList \<and> persistentItemVisisble persistentList"
    by (simp add: persistentList_eval)
  have b: "\<not> showing (run exampleRows
        [DragStart (gestureOn 3 1 0), DragFinish (gestureOn 3 1 60),
         TransitionEnd panelTransitionEnd, TimerFires 2] (slideAwayItem persistentList))
     \<and> map fst (timers (run exampleRows
        [DragStart (gestureOn 3 1 0), DragFinish (gestureOn 3 1 60),
         TransitionEnd panelTransitionEnd] (slideAwayItem persistentList))) = [2]"
    by code_simp
  note t = dismissal_turns_persistence_off[of persistentList]
  note u = dismissal_turns_persistence_off[of "slideAwayItem persistentList" _ exampleRows
      "[DragStart (gestureOn 3 1 0), DragFinish (gestureOn 3 1 60),
         TransitionEnd panelTransitionEnd, TimerFires 2]"]
  show ?thesis using a b t u by blast
qed

end
